theory Spec2Isabelle
  imports Complex_Main
begin

section \<open>Points\<close>

text \<open>
  A \<open>Point\<close> of the source is a column vector of three scalars. Scalars are modelled as
  real numbers: arithmetic is exact and rounding is outside the model. Where a statement
  depends on overflow, it is made over the scalars with infinities and NaN that a later
  section defines.
  The vector primitives (difference, cross product, dot product, normalisation) belong to
  the linear-algebra library the source is written against; they are given here by their
  standard definitions.
\<close>

datatype Point = Point (px: real) (py: real) (pz: real)

definition coeff :: "Point \<Rightarrow> nat \<Rightarrow> real" where
  \<comment> \<open>\<open>p(i)\<close> for \<open>i\<close> in 0, 1, 2\<close>
  "coeff p i = (if i = 0 then px p else if i = 1 then py p else pz p)"

definition set_coeff :: "Point \<Rightarrow> nat \<Rightarrow> real \<Rightarrow> Point" where
  \<comment> \<open>\<open>p(i) = v\<close>\<close>
  "set_coeff p i v =
     (if i = 0 then Point v (py p) (pz p)
      else if i = 1 then Point (px p) v (pz p)
      else Point (px p) (py p) v)"

definition setConstant :: "real \<Rightarrow> Point" where
  "setConstant v = Point v v v"

definition pt_minus :: "Point \<Rightarrow> Point \<Rightarrow> Point" where
  "pt_minus a b = Point (px a - px b) (py a - py b) (pz a - pz b)"

definition pt_plus :: "Point \<Rightarrow> Point \<Rightarrow> Point" where
  "pt_plus a b = Point (px a + px b) (py a + py b) (pz a + pz b)"

definition pt_neg :: "Point \<Rightarrow> Point" where
  "pt_neg a = Point (- px a) (- py a) (- pz a)"

definition pt_div :: "Point \<Rightarrow> real \<Rightarrow> Point" where
  "pt_div a s = Point (px a / s) (py a / s) (pz a / s)"

definition cross :: "Point \<Rightarrow> Point \<Rightarrow> Point" where
  "cross a b =
     Point (py a * pz b - pz a * py b)
           (pz a * px b - px a * pz b)
           (px a * py b - py a * px b)"

definition dot :: "Point \<Rightarrow> Point \<Rightarrow> real" where
  "dot a b = px a * px b + py a * py b + pz a * pz b"

definition squaredNorm :: "Point \<Rightarrow> real" where
  "squaredNorm a = dot a a"

definition normalized :: "Point \<Rightarrow> Point" where
  \<comment> \<open>the vector divided by its norm; a vector of norm zero is returned as it is\<close>
  "normalized n = (let z = squaredNorm n in if z > 0 then pt_div n (sqrt z) else n)"

definition std_min :: "real \<Rightarrow> real \<Rightarrow> real" where
  \<comment> \<open>\<open>std::min(a, b)\<close>: \<open>b\<close> when \<open>b < a\<close>, otherwise \<open>a\<close>\<close>
  "std_min a b = (if b < a then b else a)"

definition std_max :: "real \<Rightarrow> real \<Rightarrow> real" where
  \<comment> \<open>\<open>std::max(a, b)\<close>: \<open>b\<close> when \<open>a < b\<close>, otherwise \<open>a\<close>\<close>
  "std_max a b = (if a < b then b else a)"

definition DBL_MAX :: real where
  \<comment> \<open>\<open>std::numeric_limits<double>::max()\<close>, the largest finite double\<close>
  "DBL_MAX = 2 ^ 1024 - 2 ^ 971"

definition DBL_LOWEST :: real where
  \<comment> \<open>\<open>std::numeric_limits<double>::lowest()\<close>\<close>
  "DBL_LOWEST = - DBL_MAX"

definition finite_double :: "real \<Rightarrow> bool" where
  \<comment> \<open>the real numbers in the range of the finite doubles\<close>
  "finite_double x = (DBL_LOWEST \<le> x \<and> x \<le> DBL_MAX)"

definition finite_point :: "Point \<Rightarrow> bool" where
  "finite_point p = (finite_double (px p) \<and> finite_double (py p) \<and> finite_double (pz p))"


section \<open>Rigid transformations\<close>

text \<open>
  Modelled from the spec: the \<open>Transformation\<close> type is an external primitive that is not
  part of the source file. The spec describes it as a rigid body transform (rotation +
  translation) supporting composition and inversion. A transformation is modelled as a
  3x3 matrix (by rows) and a translation; it maps a point \<open>p\<close> to \<open>R p + t\<close>.
\<close>

datatype Mat3 = Mat3 (row1: Point) (row2: Point) (row3: Point)

definition col1 :: "Mat3 \<Rightarrow> Point" where
  "col1 M = Point (px (row1 M)) (px (row2 M)) (px (row3 M))"

definition col2 :: "Mat3 \<Rightarrow> Point" where
  "col2 M = Point (py (row1 M)) (py (row2 M)) (py (row3 M))"

definition col3 :: "Mat3 \<Rightarrow> Point" where
  "col3 M = Point (pz (row1 M)) (pz (row2 M)) (pz (row3 M))"

definition mat_transpose :: "Mat3 \<Rightarrow> Mat3" where
  "mat_transpose M = Mat3 (col1 M) (col2 M) (col3 M)"

definition mat_vec :: "Mat3 \<Rightarrow> Point \<Rightarrow> Point" where
  "mat_vec M p = Point (dot (row1 M) p) (dot (row2 M) p) (dot (row3 M) p)"

definition mat_mul :: "Mat3 \<Rightarrow> Mat3 \<Rightarrow> Mat3" where
  "mat_mul A B =
     Mat3 (Point (dot (row1 A) (col1 B)) (dot (row1 A) (col2 B)) (dot (row1 A) (col3 B)))
          (Point (dot (row2 A) (col1 B)) (dot (row2 A) (col2 B)) (dot (row2 A) (col3 B)))
          (Point (dot (row3 A) (col1 B)) (dot (row3 A) (col2 B)) (dot (row3 A) (col3 B)))"

definition mat_id :: Mat3 where
  "mat_id = Mat3 (Point 1 0 0) (Point 0 1 0) (Point 0 0 1)"

record Transformation =
  rotation :: Mat3
  position :: Point

definition T_identity :: Transformation where
  \<comment> \<open>Modelled from the spec: the identity pose of the external transformation type\<close>
  "T_identity = \<lparr>rotation = mat_id, position = Point 0 0 0\<rparr>"

definition T_apply :: "Transformation \<Rightarrow> Point \<Rightarrow> Point" where
  \<comment> \<open>Modelled from the spec: \<open>T * p\<close> of the external transformation type, the point
      rotated and then translated\<close>
  "T_apply T p = pt_plus (mat_vec (rotation T) p) (position T)"

definition T_mul :: "Transformation \<Rightarrow> Transformation \<Rightarrow> Transformation" where
  \<comment> \<open>Modelled from the spec: the composition \<open>A * B\<close> of the external transformation
      type, first \<open>B\<close> and then \<open>A\<close>\<close>
  "T_mul A B =
     \<lparr>rotation = mat_mul (rotation A) (rotation B),
      position = pt_plus (mat_vec (rotation A) (position B)) (position A)\<rparr>"

definition T_inverse :: "Transformation \<Rightarrow> Transformation" where
  \<comment> \<open>Modelled from the spec: the inversion of the external transformation type; for a
      rigid transformation, the transposed rotation and the translation taken back
      through it\<close>
  "T_inverse T =
     \<lparr>rotation = mat_transpose (rotation T),
      position = pt_neg (mat_vec (mat_transpose (rotation T)) (position T))\<rparr>"

definition is_rigid :: "Transformation \<Rightarrow> bool" where
  \<comment> \<open>Modelled from the spec: the transformations of the external type are rigid, that
      is, the matrix is orthogonal\<close>
  "is_rigid T = (mat_mul (mat_transpose (rotation T)) (rotation T) = mat_id)"


section \<open>Plane\<close>

record Plane =
  normal :: Point
  distance :: real

definition Plane_new :: Plane where
  \<comment> \<open>Modelled from the spec: the constructor of \<open>Plane\<close> is declared in a header that is
      not part of the source file, and the spec fixes no default value. The planes that
      \<open>resize\<close> creates are all overwritten before they are read.\<close>
  "Plane_new = \<lparr>normal = Point 0 0 0, distance = 0\<rparr>"

definition setFromPoints :: "Point \<Rightarrow> Point \<Rightarrow> Point \<Rightarrow> Plane \<Rightarrow> Plane" where
  "setFromPoints p1 p2 p3 pl =
     (let p1p2 = pt_minus p2 p1;
          p1p3 = pt_minus p3 p1;
          crs = cross p1p2 p1p3;
          n = normalized crs
      in pl\<lparr>normal := n, distance := dot n p1\<rparr>)"

definition setFromDistanceNormal :: "Point \<Rightarrow> real \<Rightarrow> Plane \<Rightarrow> Plane" where
  "setFromDistanceNormal n d pl = pl\<lparr>normal := n, distance := d\<rparr>"

definition isPointInside :: "Plane \<Rightarrow> Point \<Rightarrow> bool" where
  "isPointInside pl point = (if dot point (normal pl) \<ge> distance pl then True else False)"


section \<open>CameraModel\<close>

record CameraModel =
  initialized :: bool
  T_C_B :: Transformation
  T_G_C :: Transformation
  untransformed_corners :: "Point list"
  bounding_planes :: "Plane list"
  aabb_min :: Point
  aabb_max :: Point

datatype error =
    CheckFailed    \<comment> \<open>\<open>CHECK_EQ\<close> aborts the process\<close>
  | OutOfRange     \<comment> \<open>an index past the end of a vector\<close>

definition CameraModel_new :: CameraModel where
  \<comment> \<open>Modelled from the spec: the constructor is declared in a header that is not part of
      the source file. A new model is not initialized, has no corners and no planes, and
      its transformations default to the identity. The bounding box of a new model is not
      set by the source; it is given a fixed value here.\<close>
  "CameraModel_new =
     \<lparr>initialized = False, T_C_B = T_identity, T_G_C = T_identity,
      untransformed_corners = [], bounding_planes = [],
      aabb_min = Point 0 0 0, aabb_max = Point 0 0 0\<rparr>"

definition setIntrinsicsFromFoV ::
  "real \<Rightarrow> real \<Rightarrow> real \<Rightarrow> real \<Rightarrow> CameraModel \<Rightarrow> CameraModel" where
  "setIntrinsicsFromFoV horizontal_fov vertical_fov min_distance max_distance cm =
     (let tan_half_horizontal_fov = tan (horizontal_fov / 2);
          tan_half_vertical_fov = tan (vertical_fov / 2)
      in cm\<lparr>untransformed_corners :=
              [Point min_distance (min_distance * tan_half_horizontal_fov)
                     (min_distance * tan_half_vertical_fov),
               Point min_distance (min_distance * tan_half_horizontal_fov)
                     (- min_distance * tan_half_vertical_fov),
               Point min_distance (- min_distance * tan_half_horizontal_fov)
                     (- min_distance * tan_half_vertical_fov),
               Point min_distance (- min_distance * tan_half_horizontal_fov)
                     (min_distance * tan_half_vertical_fov),
               Point max_distance (max_distance * tan_half_horizontal_fov)
                     (max_distance * tan_half_vertical_fov),
               Point max_distance (max_distance * tan_half_horizontal_fov)
                     (- max_distance * tan_half_vertical_fov),
               Point max_distance (- max_distance * tan_half_horizontal_fov)
                     (- max_distance * tan_half_vertical_fov),
               Point max_distance (- max_distance * tan_half_horizontal_fov)
                     (max_distance * tan_half_vertical_fov)],
             initialized := True\<rparr>)"

definition setIntrinsicsFromFocalLength ::
  "real \<times> real \<Rightarrow> real \<Rightarrow> real \<Rightarrow> real \<Rightarrow> CameraModel \<Rightarrow> CameraModel" where
  "setIntrinsicsFromFocalLength resolution focal_length min_distance max_distance cm =
     (let horizontal_fov = 2 * arctan (fst resolution / (2 * focal_length));
          vertical_fov = 2 * arctan (snd resolution / (2 * focal_length))
      in setIntrinsicsFromFoV horizontal_fov vertical_fov min_distance max_distance cm)"

definition setExtrinsics :: "Transformation \<Rightarrow> CameraModel \<Rightarrow> CameraModel" where
  "setExtrinsics T cm = cm\<lparr>T_C_B := T\<rparr>"

definition getCameraPose :: "CameraModel \<Rightarrow> Transformation" where
  "getCameraPose cm = T_G_C cm"

definition getBodyPose :: "CameraModel \<Rightarrow> Transformation" where
  "getBodyPose cm = T_mul (T_G_C cm) (T_C_B cm)"

text \<open>
  The bounding box is computed by two nested loops: the outer one over the three axes,
  the inner one over the transformed corners.
\<close>

fun aabb_corners :: "nat \<Rightarrow> Point list \<Rightarrow> Point \<times> Point \<Rightarrow> Point \<times> Point" where
  "aabb_corners i [] (mn, mx) = (mn, mx)"
| "aabb_corners i (c # cs) (mn, mx) =
     aabb_corners i cs
       (set_coeff mn i (std_min (coeff mn i) (coeff c i)),
        set_coeff mx i (std_max (coeff mx i) (coeff c i)))"

fun aabb_axes :: "nat list \<Rightarrow> Point list \<Rightarrow> Point \<times> Point \<Rightarrow> Point \<times> Point" where
  "aabb_axes [] cs b = b"
| "aabb_axes (i # is) cs b = aabb_axes is cs (aabb_corners i cs b)"

definition transformed_corners :: "CameraModel \<Rightarrow> Point list" where
  "transformed_corners cm = map (T_apply (T_G_C cm)) (untransformed_corners cm)"

definition set_bounding_planes :: "Point list \<Rightarrow> Plane list \<Rightarrow> Plane list" where
  \<comment> \<open>the six calls of \<open>setFromPoints\<close>: near, far, left, right, top, bottom\<close>
  "set_bounding_planes tc planes =
     planes[0 := setFromPoints (tc ! 0) (tc ! 2) (tc ! 1) (planes ! 0),
            1 := setFromPoints (tc ! 4) (tc ! 5) (tc ! 6) (planes ! 1),
            2 := setFromPoints (tc ! 3) (tc ! 6) (tc ! 2) (planes ! 2),
            3 := setFromPoints (tc ! 0) (tc ! 5) (tc ! 4) (planes ! 3),
            4 := setFromPoints (tc ! 3) (tc ! 4) (tc ! 7) (planes ! 4),
            5 := setFromPoints (tc ! 2) (tc ! 6) (tc ! 5) (planes ! 5)]"

definition calculate_aabb :: "Point list \<Rightarrow> Point \<times> Point" where
  "calculate_aabb tc =
     aabb_axes [0, 1, 2] tc (setConstant DBL_MAX, setConstant DBL_LOWEST)"

definition calculateBoundingPlanes :: "CameraModel \<Rightarrow> error + CameraModel" where
  \<comment> \<open>a vector of one to five planes is indexed past its end; a model built by the
      constructor and the setters has none or six\<close>
  "calculateBoundingPlanes cm =
     (if \<not> initialized cm then Inr cm
      else if length (untransformed_corners cm) \<noteq> 8 then Inl CheckFailed
      else
        let planes = (if bounding_planes cm = [] then replicate 6 Plane_new
                      else bounding_planes cm);
            tc = transformed_corners cm
        in if length planes < 6 then Inl OutOfRange
           else
             let box = calculate_aabb tc
             in Inr (cm\<lparr>bounding_planes := set_bounding_planes tc planes,
                        aabb_min := fst box, aabb_max := snd box\<rparr>))"

definition setCameraPose :: "Transformation \<Rightarrow> CameraModel \<Rightarrow> error + CameraModel" where
  "setCameraPose cam_pose cm = calculateBoundingPlanes (cm\<lparr>T_G_C := cam_pose\<rparr>)"

definition setBodyPose :: "Transformation \<Rightarrow> CameraModel \<Rightarrow> error + CameraModel" where
  "setBodyPose body_pose cm = setCameraPose (T_mul body_pose (T_inverse (T_C_B cm))) cm"

definition getAabb :: "CameraModel \<Rightarrow> Point \<times> Point" where
  "getAabb cm = (aabb_min cm, aabb_max cm)"

fun planes_all_inside :: "Plane list \<Rightarrow> Point \<Rightarrow> bool" where
  \<comment> \<open>the loop of \<open>isPointInView\<close>, which returns false at the first failing plane\<close>
  "planes_all_inside [] point = True"
| "planes_all_inside (pl # pls) point =
     (if \<not> isPointInside pl point then False else planes_all_inside pls point)"

definition isPointInView :: "CameraModel \<Rightarrow> Point \<Rightarrow> bool" where
  "isPointInView cm point = planes_all_inside (bounding_planes cm) point"

definition cm_inv :: "CameraModel \<Rightarrow> bool" where
  \<comment> \<open>what every model built by the constructor and the setters satisfies: an initialized
      model has its eight corners, and the planes are none or six\<close>
  "cm_inv cm =
     ((\<not> initialized cm \<or> length (untransformed_corners cm) = 8) \<and>
      (bounding_planes cm = [] \<or> length (bounding_planes cm) = 6))"

definition collinear :: "Point \<Rightarrow> Point \<Rightarrow> Point \<Rightarrow> bool" where
  \<comment> \<open>a degenerate triple: the cross product that \<open>setFromPoints\<close> normalises is zero\<close>
  "collinear p1 p2 p3 = (cross (pt_minus p2 p1) (pt_minus p3 p1) = Point 0 0 0)"

text \<open>
  The corners as the specification words them: for each depth, near first and then far,
  the four corners with lateral extent \<open>depth * tan (hfov / 2)\<close> and vertical extent
  \<open>depth * tan (vfov / 2)\<close>, in the sign order (+,+), (+,-), (-,-), (-,+).
\<close>

definition spec_corner :: "real \<Rightarrow> real \<Rightarrow> real \<Rightarrow> real \<times> real \<Rightarrow> Point" where
  "spec_corner hfov vfov depth sg =
     Point depth (fst sg * (depth * tan (hfov / 2))) (snd sg * (depth * tan (vfov / 2)))"

definition spec_corners :: "real \<Rightarrow> real \<Rightarrow> real \<Rightarrow> real \<Rightarrow> Point list" where
  "spec_corners hfov vfov min_distance max_distance =
     concat (map (\<lambda>depth. map (\<lambda>sg. spec_corner hfov vfov depth sg)
                                 [(1, 1), (1, - 1), (- 1, - 1), (- 1, 1)])
               [min_distance, max_distance])"


definition coords_within :: "real \<Rightarrow> Point \<Rightarrow> bool" where
  \<comment> \<open>every coordinate has magnitude at most \<open>B\<close>\<close>
  "coords_within B p = (\<bar>px p\<bar> \<le> B \<and> \<bar>py p\<bar> \<le> B \<and> \<bar>pz p\<bar> \<le> B)"


section \<open>Scalars with overflow\<close>

text \<open>
  Real arithmetic never overflows; the scalars of the source do. For the statements that
  depend on it, a scalar is a finite value, an infinity or NaN: an operation on finite
  values whose result lies beyond the largest finite double gives an infinity, operations
  on infinities follow IEEE 754 (the difference of equal infinities, zero times infinity
  and infinity over infinity are NaN), NaN propagates, and every comparison with NaN is
  false. Rounding of finite results, underflow and the sign of zero are not modelled.
\<close>

datatype fp = Fin real | PInf | NInf | NaN

definition fp_overflow :: "real \<Rightarrow> fp" where
  \<comment> \<open>the result of an operation on finite operands: beyond the largest finite double it
      is an infinity\<close>
  "fp_overflow r = (if DBL_MAX < r then PInf else if r < DBL_LOWEST then NInf else Fin r)"

fun fp_neg :: "fp \<Rightarrow> fp" where
  "fp_neg (Fin a) = Fin (- a)"
| "fp_neg PInf = NInf"
| "fp_neg NInf = PInf"
| "fp_neg NaN = NaN"

fun fp_add :: "fp \<Rightarrow> fp \<Rightarrow> fp" where
  "fp_add (Fin a) (Fin b) = fp_overflow (a + b)"
| "fp_add NaN y = NaN"
| "fp_add x NaN = NaN"
| "fp_add PInf NInf = NaN"
| "fp_add NInf PInf = NaN"
| "fp_add PInf y = PInf"
| "fp_add x PInf = PInf"
| "fp_add NInf y = NInf"
| "fp_add x NInf = NInf"

definition fp_sub :: "fp \<Rightarrow> fp \<Rightarrow> fp" where
  "fp_sub x y = fp_add x (fp_neg y)"

fun fp_mul :: "fp \<Rightarrow> fp \<Rightarrow> fp" where
  "fp_mul (Fin a) (Fin b) = fp_overflow (a * b)"
| "fp_mul NaN y = NaN"
| "fp_mul x NaN = NaN"
| "fp_mul (Fin a) PInf = (if a = 0 then NaN else if 0 < a then PInf else NInf)"
| "fp_mul (Fin a) NInf = (if a = 0 then NaN else if 0 < a then NInf else PInf)"
| "fp_mul PInf (Fin b) = (if b = 0 then NaN else if 0 < b then PInf else NInf)"
| "fp_mul NInf (Fin b) = (if b = 0 then NaN else if 0 < b then NInf else PInf)"
| "fp_mul PInf PInf = PInf"
| "fp_mul PInf NInf = NInf"
| "fp_mul NInf PInf = NInf"
| "fp_mul NInf NInf = PInf"

fun fp_div :: "fp \<Rightarrow> fp \<Rightarrow> fp" where
  \<comment> \<open>a zero divisor is taken as positive zero\<close>
  "fp_div (Fin a) (Fin b) =
     (if b = 0 then (if a = 0 then NaN else if 0 < a then PInf else NInf)
      else fp_overflow (a / b))"
| "fp_div NaN y = NaN"
| "fp_div x NaN = NaN"
| "fp_div (Fin a) PInf = Fin 0"
| "fp_div (Fin a) NInf = Fin 0"
| "fp_div PInf (Fin b) = (if 0 \<le> b then PInf else NInf)"
| "fp_div NInf (Fin b) = (if 0 \<le> b then NInf else PInf)"
| "fp_div PInf PInf = NaN"
| "fp_div PInf NInf = NaN"
| "fp_div NInf PInf = NaN"
| "fp_div NInf NInf = NaN"

fun fp_sqrt :: "fp \<Rightarrow> fp" where
  "fp_sqrt (Fin a) = (if a < 0 then NaN else Fin (sqrt a))"
| "fp_sqrt PInf = PInf"
| "fp_sqrt NInf = NaN"
| "fp_sqrt NaN = NaN"

fun fp_less :: "fp \<Rightarrow> fp \<Rightarrow> bool" where
  \<comment> \<open>\<open>x < y\<close>; false when either side is NaN\<close>
  "fp_less (Fin a) (Fin b) = (a < b)"
| "fp_less NaN y = False"
| "fp_less x NaN = False"
| "fp_less x NInf = False"
| "fp_less NInf y = True"
| "fp_less PInf y = False"
| "fp_less x PInf = True"

fun fp_ge :: "fp \<Rightarrow> fp \<Rightarrow> bool" where
  \<comment> \<open>\<open>x >= y\<close>; false when either side is NaN\<close>
  "fp_ge (Fin a) (Fin b) = (b \<le> a)"
| "fp_ge NaN y = False"
| "fp_ge x NaN = False"
| "fp_ge PInf y = True"
| "fp_ge x NInf = True"
| "fp_ge x PInf = False"
| "fp_ge NInf y = False"

datatype FPoint = FPoint (fx: fp) (fy: fp) (fz: fp)

definition to_fp :: "Point \<Rightarrow> FPoint" where
  \<comment> \<open>a point with finite coordinates\<close>
  "to_fp p = FPoint (Fin (px p)) (Fin (py p)) (Fin (pz p))"

definition fp_pt_minus :: "FPoint \<Rightarrow> FPoint \<Rightarrow> FPoint" where
  "fp_pt_minus a b = FPoint (fp_sub (fx a) (fx b)) (fp_sub (fy a) (fy b)) (fp_sub (fz a) (fz b))"

definition fp_pt_div :: "FPoint \<Rightarrow> fp \<Rightarrow> FPoint" where
  "fp_pt_div a s = FPoint (fp_div (fx a) s) (fp_div (fy a) s) (fp_div (fz a) s)"

definition fp_cross :: "FPoint \<Rightarrow> FPoint \<Rightarrow> FPoint" where
  "fp_cross a b =
     FPoint (fp_sub (fp_mul (fy a) (fz b)) (fp_mul (fz a) (fy b)))
            (fp_sub (fp_mul (fz a) (fx b)) (fp_mul (fx a) (fz b)))
            (fp_sub (fp_mul (fx a) (fy b)) (fp_mul (fy a) (fx b)))"

definition fp_dot :: "FPoint \<Rightarrow> FPoint \<Rightarrow> fp" where
  "fp_dot a b =
     fp_add (fp_add (fp_mul (fx a) (fx b)) (fp_mul (fy a) (fy b))) (fp_mul (fz a) (fz b))"

definition fp_squaredNorm :: "FPoint \<Rightarrow> fp" where
  "fp_squaredNorm a = fp_dot a a"

definition fp_normalized :: "FPoint \<Rightarrow> FPoint" where
  \<comment> \<open>as \<open>normalized\<close>: divided by the norm when the squared norm is positive\<close>
  "fp_normalized n =
     (let z = fp_squaredNorm n in if fp_less (Fin 0) z then fp_pt_div n (fp_sqrt z) else n)"

record FPlane =
  fnormal :: FPoint
  fdistance :: fp

definition FPlane_new :: FPlane where
  \<comment> \<open>as \<open>Plane_new\<close>; both fields are overwritten by \<open>setFromPoints_fp\<close>\<close>
  "FPlane_new = \<lparr>fnormal = FPoint (Fin 0) (Fin 0) (Fin 0), fdistance = Fin 0\<rparr>"

text \<open>
  \<open>Plane::setFromPoints\<close> and \<open>Plane::isPointInside\<close> once more, statement by statement as
  above, over the scalars with overflow.
\<close>

definition setFromPoints_fp :: "FPoint \<Rightarrow> FPoint \<Rightarrow> FPoint \<Rightarrow> FPlane \<Rightarrow> FPlane" where
  "setFromPoints_fp p1 p2 p3 pl =
     (let p1p2 = fp_pt_minus p2 p1;
          p1p3 = fp_pt_minus p3 p1;
          crs = fp_cross p1p2 p1p3;
          n = fp_normalized crs
      in pl\<lparr>fnormal := n, fdistance := fp_dot n p1\<rparr>)"

definition isPointInside_fp :: "FPlane \<Rightarrow> FPoint \<Rightarrow> bool" where
  "isPointInside_fp pl point =
     (if fp_ge (fp_dot point (fnormal pl)) (fdistance pl) then True else False)"


section \<open>Basic facts\<close>

lemma planes_all_inside_iff:
  "planes_all_inside pls p \<longleftrightarrow> (\<forall>pl \<in> set pls. isPointInside pl p)"
  by (induction pls) auto

lemma calculateBoundingPlanes_uninit:
  "\<not> initialized cm \<Longrightarrow> calculateBoundingPlanes cm = Inr cm"
  by (simp add: calculateBoundingPlanes_def)

lemma length_set_bounding_planes [simp]:
  "length (set_bounding_planes tc pls) = length pls"
  by (simp add: set_bounding_planes_def)

lemma calculateBoundingPlanes_init:
  assumes "initialized cm" and "length (untransformed_corners cm) = 8"
    and "bounding_planes cm = [] \<or> length (bounding_planes cm) = 6"
  shows "calculateBoundingPlanes cm =
     Inr (cm\<lparr>bounding_planes :=
               set_bounding_planes (transformed_corners cm)
                 (if bounding_planes cm = [] then replicate 6 Plane_new else bounding_planes cm),
             aabb_min := fst (calculate_aabb (transformed_corners cm)),
             aabb_max := snd (calculate_aabb (transformed_corners cm))\<rparr>)"
  using assms by (auto simp add: calculateBoundingPlanes_def Let_def)

lemma setCameraPose_init:
  assumes "initialized cm" and "cm_inv cm"
  shows "\<exists>cm'. setCameraPose P cm = Inr cm' \<and>
     T_G_C cm' = P \<and> T_C_B cm' = T_C_B cm \<and> initialized cm' \<and>
     untransformed_corners cm' = untransformed_corners cm \<and>
     bounding_planes cm' =
       set_bounding_planes (map (T_apply P) (untransformed_corners cm))
         (if bounding_planes cm = [] then replicate 6 Plane_new else bounding_planes cm) \<and>
     aabb_min cm' = fst (calculate_aabb (map (T_apply P) (untransformed_corners cm))) \<and>
     aabb_max cm' = snd (calculate_aabb (map (T_apply P) (untransformed_corners cm)))"
proof -
  let ?c = "cm\<lparr>T_G_C := P\<rparr>"
  have "initialized ?c" "length (untransformed_corners ?c) = 8"
    "bounding_planes ?c = [] \<or> length (bounding_planes ?c) = 6"
    using assms by (auto simp add: cm_inv_def)
  from calculateBoundingPlanes_init[OF this]
  show ?thesis using assms by (simp add: setCameraPose_def transformed_corners_def)
qed

lemma setCameraPose_uninit:
  "\<not> initialized cm \<Longrightarrow> setCameraPose P cm = Inr (cm\<lparr>T_G_C := P\<rparr>)"
  by (simp add: setCameraPose_def calculateBoundingPlanes_uninit)

lemma setIntrinsicsFromFoV_fields:
  "initialized (setIntrinsicsFromFoV h v a b cm)"
  "length (untransformed_corners (setIntrinsicsFromFoV h v a b cm)) = 8"
  "bounding_planes (setIntrinsicsFromFoV h v a b cm) = bounding_planes cm"
  "T_C_B (setIntrinsicsFromFoV h v a b cm) = T_C_B cm"
  "T_G_C (setIntrinsicsFromFoV h v a b cm) = T_G_C cm"
  "aabb_min (setIntrinsicsFromFoV h v a b cm) = aabb_min cm"
  "aabb_max (setIntrinsicsFromFoV h v a b cm) = aabb_max cm"
  by (simp_all add: setIntrinsicsFromFoV_def Let_def)

lemma CameraModel_new_fields:
  "\<not> initialized CameraModel_new"
  "untransformed_corners CameraModel_new = []"
  "bounding_planes CameraModel_new = []"
  "T_C_B CameraModel_new = T_identity"
  "T_G_C CameraModel_new = T_identity"
  by (simp_all add: CameraModel_new_def)

lemma cm_inv_new: "cm_inv CameraModel_new"
  by (simp add: cm_inv_def CameraModel_new_def)

lemma cm_inv_setIntrinsicsFromFoV:
  "cm_inv cm \<Longrightarrow> cm_inv (setIntrinsicsFromFoV h v a b cm)"
  by (simp add: cm_inv_def setIntrinsicsFromFoV_fields)

lemma cm_inv_setExtrinsics: "cm_inv cm \<Longrightarrow> cm_inv (setExtrinsics T cm)"
  by (simp add: cm_inv_def setExtrinsics_def)

lemma cm_inv_setCameraPose:
  assumes "cm_inv cm" and "setCameraPose P cm = Inr cm'"
  shows "cm_inv cm'"
proof (cases "initialized cm")
  case True
  from setCameraPose_init[OF True assms(1), of P] assms True show ?thesis
    by (auto simp add: cm_inv_def)
next
  case False
  with assms show ?thesis by (auto simp add: setCameraPose_uninit cm_inv_def)
qed

lemma cm_inv_setIntrinsicsFromFocalLength:
  "cm_inv cm \<Longrightarrow> cm_inv (setIntrinsicsFromFocalLength r f a b cm)"
  by (simp add: setIntrinsicsFromFocalLength_def Let_def cm_inv_setIntrinsicsFromFoV)

lemma cm_inv_setBodyPose:
  "cm_inv cm \<Longrightarrow> setBodyPose B cm = Inr cm' \<Longrightarrow> cm_inv cm'"
  unfolding setBodyPose_def by (rule cm_inv_setCameraPose)

lemma setCameraPose_total:
  assumes "cm_inv cm" shows "\<exists>cm'. setCameraPose P cm = Inr cm'"
proof (cases "initialized cm")
  case True
  from setCameraPose_init[OF True assms, of P] show ?thesis by blast
next
  case False
  then show ?thesis by (simp add: setCameraPose_uninit)
qed

lemma calculateBoundingPlanes_T_G_C:
  "calculateBoundingPlanes cm = Inr cm' \<Longrightarrow> T_G_C cm' = T_G_C cm"
  unfolding calculateBoundingPlanes_def Let_def
  by (auto split: if_splits)

lemma dot_commute: "dot a b = dot b a"
  by (simp add: dot_def mult.commute)


section \<open>Planes from three points\<close>

text \<open>
  C4: after \<open>setFromPoints p1 p2 p3\<close> the normal is the normalised cross product of
  \<open>p2 - p1\<close> and \<open>p3 - p1\<close>, the distance is the dot product of the normal and \<open>p1\<close>,
  and a point is inside a plane exactly when its dot product with the normal is at least
  the distance.
\<close>

theorem setFromPoints_isPointInside:
  "normal (setFromPoints p1 p2 p3 pl) = normalized (cross (pt_minus p2 p1) (pt_minus p3 p1)) \<and>
   distance (setFromPoints p1 p2 p3 pl) = dot (normal (setFromPoints p1 p2 p3 pl)) p1 \<and>
   (isPointInside (setFromPoints p1 p2 p3 pl) p \<longleftrightarrow>
      dot p (normal (setFromPoints p1 p2 p3 pl)) \<ge> distance (setFromPoints p1 p2 p3 pl)) \<and>
   (isPointInside pl p \<longleftrightarrow> dot p (normal pl) \<ge> distance pl)"
  by (simp add: setFromPoints_def isPointInside_def Let_def)

section \<open>The defining point of a plane, with overflow\<close>

lemma fp_mul_commute: "fp_mul x y = fp_mul y x"
  by (cases x; cases y) (simp_all add: mult.commute)

lemma fp_dot_commute: "fp_dot a b = fp_dot b a"
  by (simp add: fp_dot_def fp_mul_commute[of "fx a"] fp_mul_commute[of "fy a"]
      fp_mul_commute[of "fz a"])

lemma fp_ge_refl_iff: "fp_ge x x \<longleftrightarrow> x \<noteq> NaN"
  by (cases x) simp_all

lemma fp_ge_NaN: "\<not> fp_ge x NaN" "\<not> fp_ge NaN y"
  by (cases x) simp_all

lemma DBL_MAX_pos: "0 < DBL_MAX"
  by (simp add: DBL_MAX_def)

lemma fp_overflow_Fin: "\<bar>r\<bar> \<le> DBL_MAX \<Longrightarrow> fp_overflow r = Fin r"
  by (auto simp add: fp_overflow_def DBL_LOWEST_def)

lemma fp_overflow_not_NaN: "fp_overflow r \<noteq> NaN"
  by (simp add: fp_overflow_def)

lemma fp_overflow_nonneg: "0 \<le> r \<Longrightarrow> fp_overflow r = Fin r \<or> fp_overflow r = PInf"
  using DBL_MAX_pos by (auto simp add: fp_overflow_def DBL_LOWEST_def)

lemma fp_add_Fin_not_NaN: "x \<noteq> NaN \<Longrightarrow> fp_add x (Fin q) \<noteq> NaN"
  by (cases x) (simp_all add: fp_overflow_not_NaN)

lemma fp_dot_Fin_not_NaN:
  assumes "\<bar>n1 * a1\<bar> \<le> DBL_MAX" "\<bar>n2 * a2\<bar> \<le> DBL_MAX" "\<bar>n3 * a3\<bar> \<le> DBL_MAX"
  shows "fp_dot (FPoint (Fin n1) (Fin n2) (Fin n3)) (FPoint (Fin a1) (Fin a2) (Fin a3)) \<noteq> NaN"
  using assms
  by (simp add: fp_dot_def fp_overflow_Fin fp_add_Fin_not_NaN fp_overflow_not_NaN)

lemma fp_squaredNorm_Fin:
  "fp_squaredNorm (FPoint (Fin u) (Fin v) (Fin w)) = PInf \<or>
   fp_squaredNorm (FPoint (Fin u) (Fin v) (Fin w)) = Fin (u * u + v * v + w * w)"
proof -
  have u: "fp_overflow (u * u) = Fin (u * u) \<or> fp_overflow (u * u) = PInf"
    and v: "fp_overflow (v * v) = Fin (v * v) \<or> fp_overflow (v * v) = PInf"
    and w: "fp_overflow (w * w) = Fin (w * w) \<or> fp_overflow (w * w) = PInf"
    by (rule fp_overflow_nonneg, simp)+
  have s: "fp_overflow (u * u + v * v) = Fin (u * u + v * v) \<or> fp_overflow (u * u + v * v) = PInf"
    by (rule fp_overflow_nonneg) simp
  have t: "fp_overflow (u * u + v * v + w * w) = Fin (u * u + v * v + w * w) \<or>
           fp_overflow (u * u + v * v + w * w) = PInf"
    by (rule fp_overflow_nonneg) simp
  from u v w s t show ?thesis
    by (auto simp add: fp_squaredNorm_def fp_dot_def)
qed

lemma abs_div_sqrt_le_1:
  fixes u :: real
  assumes "0 < u * u + v * v + w * w"
  shows "\<bar>u / sqrt (u * u + v * v + w * w)\<bar> \<le> 1"
proof -
  have "u * u \<le> u * u + v * v + w * w" by simp
  then have "sqrt (u * u) \<le> sqrt (u * u + v * v + w * w)" by (rule real_sqrt_le_mono)
  then have "\<bar>u\<bar> \<le> sqrt (u * u + v * v + w * w)" by simp
  moreover have "0 < sqrt (u * u + v * v + w * w)" using assms by simp
  ultimately show ?thesis by (simp add: abs_divide)
qed

lemma abs_mult_le_DBL_MAX:
  assumes "\<bar>n\<bar> \<le> 1" and "finite_double a"
  shows "\<bar>n * a\<bar> \<le> DBL_MAX"
proof -
  from assms(2) have a: "\<bar>a\<bar> \<le> DBL_MAX"
    by (simp add: finite_double_def DBL_LOWEST_def abs_le_iff)
  have "\<bar>n * a\<bar> = \<bar>n\<bar> * \<bar>a\<bar>" by (rule abs_mult)
  also have "\<dots> \<le> 1 * DBL_MAX" using assms(1) a by (intro mult_mono) simp_all
  finally show ?thesis by simp
qed

lemma distance_not_NaN_of_finite_cross:
  assumes a: "finite_point a"
    and c: "fp_cross (fp_pt_minus p2 (to_fp a)) (fp_pt_minus p3 (to_fp a)) =
              FPoint (Fin u) (Fin v) (Fin w)"
  shows "fdistance (setFromPoints_fp (to_fp a) p2 p3 pl) \<noteq> NaN"
proof -
  let ?r = "u * u + v * v + w * w"
  let ?z = "fp_squaredNorm (FPoint (Fin u) (Fin v) (Fin w))"
  have d: "fdistance (setFromPoints_fp (to_fp a) p2 p3 pl) =
             fp_dot (fp_normalized (FPoint (Fin u) (Fin v) (Fin w))) (to_fp a)"
    by (simp add: setFromPoints_fp_def Let_def c)
  have fa: "finite_double (px a)" "finite_double (py a)" "finite_double (pz a)"
    using a by (simp_all add: finite_point_def)
  have zero: "fp_dot (FPoint (Fin 0) (Fin 0) (Fin 0)) (to_fp a) \<noteq> NaN"
    unfolding to_fp_def using DBL_MAX_pos by (intro fp_dot_Fin_not_NaN) simp_all
  from fp_squaredNorm_Fin[of u v w] show ?thesis
  proof
    assume z: "?z = PInf"
    then have "fp_normalized (FPoint (Fin u) (Fin v) (Fin w)) = FPoint (Fin 0) (Fin 0) (Fin 0)"
      by (simp add: fp_normalized_def fp_pt_div_def)
    with zero show ?thesis by (simp add: d)
  next
    assume z: "?z = Fin ?r"
    show ?thesis
    proof (cases "0 < ?r")
      case True
      have b: "\<bar>u / sqrt ?r\<bar> \<le> 1" "\<bar>v / sqrt ?r\<bar> \<le> 1" "\<bar>w / sqrt ?r\<bar> \<le> 1"
      proof -
        show "\<bar>u / sqrt ?r\<bar> \<le> 1" using True by (rule abs_div_sqrt_le_1)
        have "0 < v * v + w * w + u * u" using True by (simp add: ac_simps)
        then have "\<bar>v / sqrt (v * v + w * w + u * u)\<bar> \<le> 1" by (rule abs_div_sqrt_le_1)
        then show "\<bar>v / sqrt ?r\<bar> \<le> 1" by (simp add: ac_simps)
        have "0 < w * w + u * u + v * v" using True by (simp add: ac_simps)
        then have "\<bar>w / sqrt (w * w + u * u + v * v)\<bar> \<le> 1" by (rule abs_div_sqrt_le_1)
        then show "\<bar>w / sqrt ?r\<bar> \<le> 1" by (simp add: ac_simps)
      qed
      have le: "(1::real) \<le> DBL_MAX" by (simp add: DBL_MAX_def)
      have o: "fp_overflow (u / sqrt ?r) = Fin (u / sqrt ?r)"
        "fp_overflow (v / sqrt ?r) = Fin (v / sqrt ?r)"
        "fp_overflow (w / sqrt ?r) = Fin (w / sqrt ?r)"
        using b le by (auto intro!: fp_overflow_Fin)
      have nz: "sqrt ?r \<noteq> 0" using True by simp
      have n: "fp_normalized (FPoint (Fin u) (Fin v) (Fin w)) =
                 FPoint (Fin (u / sqrt ?r)) (Fin (v / sqrt ?r)) (Fin (w / sqrt ?r))"
        using True nz by (simp add: fp_normalized_def z fp_pt_div_def o)
      have "fp_dot (FPoint (Fin (u / sqrt ?r)) (Fin (v / sqrt ?r)) (Fin (w / sqrt ?r))) (to_fp a)
              \<noteq> NaN"
        unfolding to_fp_def by (intro fp_dot_Fin_not_NaN abs_mult_le_DBL_MAX b fa)
      then show ?thesis by (simp add: d n)
    next
      case False
      have "0 \<le> u * u" "0 \<le> v * v" "0 \<le> w * w" by simp_all
      with False have "u * u = 0" "v * v = 0" "w * w = 0" by linarith+
      then have uvw: "u = 0" "v = 0" "w = 0" by simp_all
      have "\<not> fp_less (Fin 0) ?z" using False by (simp add: z)
      then have "fp_normalized (FPoint (Fin u) (Fin v) (Fin w)) = FPoint (Fin u) (Fin v) (Fin w)"
        by (simp add: fp_normalized_def Let_def)
      with zero show ?thesis by (simp add: d uvw)
    qed
  qed
qed

lemma coords_within_finite_point: "coords_within B p \<Longrightarrow> B \<le> DBL_MAX \<Longrightarrow> finite_point p"
  by (auto simp add: coords_within_def finite_point_def finite_double_def DBL_LOWEST_def)

lemma fp_sub_Fin:
  assumes "\<bar>x\<bar> \<le> K" "\<bar>y\<bar> \<le> K" "2 * K \<le> DBL_MAX"
  shows "fp_sub (Fin x) (Fin y) = Fin (x - y)"
proof -
  from assms have "\<bar>x - y\<bar> \<le> DBL_MAX" by linarith
  then show ?thesis by (simp add: fp_sub_def fp_overflow_Fin)
qed

lemma abs_mult_le_square:
  fixes x y :: real
  assumes "\<bar>x\<bar> \<le> M" "\<bar>y\<bar> \<le> M"
  shows "\<bar>x * y\<bar> \<le> M * M"
proof -
  have "\<bar>x * y\<bar> = \<bar>x\<bar> * \<bar>y\<bar>" by (rule abs_mult)
  also have "\<dots> \<le> M * M" using assms by (intro mult_mono) linarith+
  finally show ?thesis .
qed

lemma fp_cross_component_Fin:
  assumes "\<bar>a\<bar> \<le> M" "\<bar>b\<bar> \<le> M" "\<bar>c\<bar> \<le> M" "\<bar>d\<bar> \<le> M"
    and "2 * (M * M) \<le> DBL_MAX"
  shows "fp_sub (fp_mul (Fin a) (Fin b)) (fp_mul (Fin c) (Fin d)) = Fin (a * b - c * d)"
proof -
  have 1: "\<bar>a * b\<bar> \<le> M * M" and 2: "\<bar>c * d\<bar> \<le> M * M"
    using assms(1-4) by (auto intro: abs_mult_le_square)
  have "0 \<le> M * M" by simp
  with 1 2 assms(5) have "\<bar>a * b\<bar> \<le> DBL_MAX" "\<bar>c * d\<bar> \<le> DBL_MAX"
    "\<bar>a * b - c * d\<bar> \<le> DBL_MAX"
    by linarith+
  then show ?thesis
    by (simp add: fp_sub_def fp_overflow_Fin)
qed

lemma fp_pt_minus_to_fp:
  assumes "coords_within K a" "coords_within K b" "2 * K \<le> DBL_MAX"
  shows "fp_pt_minus (to_fp b) (to_fp a) = to_fp (pt_minus b a)"
    and "coords_within (2 * K) (pt_minus b a)"
proof -
  show "fp_pt_minus (to_fp b) (to_fp a) = to_fp (pt_minus b a)"
    using assms
    by (simp add: fp_pt_minus_def to_fp_def pt_minus_def coords_within_def fp_sub_Fin[of _ K])
  from assms(1,2) show "coords_within (2 * K) (pt_minus b a)"
    unfolding coords_within_def pt_minus_def by (simp only: Point.sel) linarith
qed

lemma fp_cross_to_fp:
  assumes "coords_within M d" "coords_within M e" "2 * (M * M) \<le> DBL_MAX"
  shows "fp_cross (to_fp d) (to_fp e) = to_fp (cross d e)"
  using assms
  by (simp add: fp_cross_def to_fp_def cross_def coords_within_def
      fp_cross_component_Fin[of _ M] del: fp_mul.simps)

lemma distance_not_NaN_within:
  assumes "coords_within K a" "coords_within K b" "coords_within K c"
    and k: "2 * K \<le> DBL_MAX" "2 * ((2 * K) * (2 * K)) \<le> DBL_MAX"
  shows "fdistance (setFromPoints_fp (to_fp a) (to_fp b) (to_fp c) pl) \<noteq> NaN"
proof -
  from k(1) have "K \<le> DBL_MAX" using DBL_MAX_pos by linarith
  with assms(1) have fa: "finite_point a" by (rule coords_within_finite_point)
  have m: "fp_pt_minus (to_fp b) (to_fp a) = to_fp (pt_minus b a)"
    "fp_pt_minus (to_fp c) (to_fp a) = to_fp (pt_minus c a)"
    using assms(1-3) k(1) by (auto intro: fp_pt_minus_to_fp(1))
  have w: "coords_within (2 * K) (pt_minus b a)" "coords_within (2 * K) (pt_minus c a)"
    using assms(1-3) k(1) by (auto intro: fp_pt_minus_to_fp(2))
  have "fp_cross (to_fp (pt_minus b a)) (to_fp (pt_minus c a)) =
          to_fp (cross (pt_minus b a) (pt_minus c a))"
    using w k(2) by (rule fp_cross_to_fp)
  then have "fp_cross (fp_pt_minus (to_fp b) (to_fp a)) (fp_pt_minus (to_fp c) (to_fp a)) =
          FPoint (Fin (px (cross (pt_minus b a) (pt_minus c a))))
                 (Fin (py (cross (pt_minus b a) (pt_minus c a))))
                 (Fin (pz (cross (pt_minus b a) (pt_minus c a))))"
    unfolding m by (simp add: to_fp_def)
  with fa show ?thesis by (rule distance_not_NaN_of_finite_cross)
qed

lemma distance_not_NaN_bounded:
  assumes "coords_within (2 ^ 510) a" "coords_within (2 ^ 510) b" "coords_within (2 ^ 510) c"
  shows "fdistance (setFromPoints_fp (to_fp a) (to_fp b) (to_fp c) pl) \<noteq> NaN"
proof -
  have "2 * (2::real) ^ 510 \<le> DBL_MAX"
    "2 * ((2 * (2::real) ^ 510) * (2 * 2 ^ 510)) \<le> DBL_MAX"
    by (simp_all add: DBL_MAX_def)
  with assms show ?thesis by (rule distance_not_NaN_within)
qed

text \<open>
  C8: whenever the distance that \<open>setFromPoints\<close> stores is not NaN, the first defining
  point is inside the plane: its dot product with the normal is the stored distance, and
  the test includes the boundary. By \<open>distance_not_NaN_of_finite_cross\<close> the distance is
  not NaN when \<open>p1\<close> is finite and the cross product does not overflow, and by
  \<open>distance_not_NaN_bounded\<close> that is so for coordinates of magnitude at most \<open>2 ^ 510\<close>.
\<close>

theorem isPointInside_fp_defining_point:
  assumes "fdistance (setFromPoints_fp p1 p2 p3 pl) \<noteq> NaN"
  shows "isPointInside_fp (setFromPoints_fp p1 p2 p3 pl) p1 \<and>
         fp_dot p1 (fnormal (setFromPoints_fp p1 p2 p3 pl)) =
           fdistance (setFromPoints_fp p1 p2 p3 pl)"
proof -
  let ?n = "fp_normalized (fp_cross (fp_pt_minus p2 p1) (fp_pt_minus p3 p1))"
  have n: "fnormal (setFromPoints_fp p1 p2 p3 pl) = ?n"
    and d: "fdistance (setFromPoints_fp p1 p2 p3 pl) = fp_dot ?n p1"
    by (simp_all add: setFromPoints_fp_def Let_def)
  have e: "fp_dot p1 ?n = fp_dot ?n p1" by (rule fp_dot_commute)
  from assms have "fp_ge (fp_dot ?n p1) (fp_dot ?n p1)"
    unfolding d by (simp add: fp_ge_refl_iff)
  then show ?thesis by (simp add: isPointInside_fp_def n d e)
qed

theorem isPointInside_fp_defining_point_witness:
  "fdistance (setFromPoints_fp (to_fp (Point 1 2 3)) (to_fp (Point 2 2 3)) (to_fp (Point 1 3 3))
      FPlane_new) \<noteq> NaN \<and>
   (isPointInside_fp
      (setFromPoints_fp (to_fp (Point 1 2 3)) (to_fp (Point 2 2 3)) (to_fp (Point 1 3 3)) FPlane_new)
      (to_fp (Point 1 2 3)) \<and>
    fp_dot (to_fp (Point 1 2 3))
      (fnormal (setFromPoints_fp (to_fp (Point 1 2 3)) (to_fp (Point 2 2 3)) (to_fp (Point 1 3 3))
         FPlane_new)) =
    fdistance (setFromPoints_fp (to_fp (Point 1 2 3)) (to_fp (Point 2 2 3)) (to_fp (Point 1 3 3))
      FPlane_new))"
proof -
  have b: "coords_within (2 ^ 510) (Point 1 2 3)" "coords_within (2 ^ 510) (Point 2 2 3)"
    "coords_within (2 ^ 510) (Point 1 3 3)"
    by (simp_all add: coords_within_def)
  have h: "fdistance (setFromPoints_fp (to_fp (Point 1 2 3)) (to_fp (Point 2 2 3))
             (to_fp (Point 1 3 3)) FPlane_new) \<noteq> NaN"
    using b by (rule distance_not_NaN_bounded)
  show ?thesis by (rule conjI[OF h isPointInside_fp_defining_point[OF h]])
qed

text \<open>
  Without that condition the statement of C8 fails. The triple (0, 0, 0), (2^600, 0, 0),
  (0, 2^600, 0) is not collinear and its coordinates are finite, but the third component
  of the cross product, \<open>2 ^ 600 * 2 ^ 600\<close>, overflows to infinity; the squared norm is
  infinite, the normalised third component is infinity over infinity, the stored distance
  is NaN, and the test \<open>>=\<close> against NaN is false.
\<close>

theorem isPointInside_defining_point_overflow:
  "\<not> collinear (Point 0 0 0) (Point (2 ^ 600) 0 0) (Point 0 (2 ^ 600) 0) \<and>
   finite_point (Point (2 ^ 600) 0 0) \<and> finite_point (Point 0 (2 ^ 600) 0) \<and>
   fnormal (setFromPoints_fp (to_fp (Point 0 0 0)) (to_fp (Point (2 ^ 600) 0 0))
              (to_fp (Point 0 (2 ^ 600) 0)) FPlane_new) = FPoint (Fin 0) (Fin 0) NaN \<and>
   fdistance (setFromPoints_fp (to_fp (Point 0 0 0)) (to_fp (Point (2 ^ 600) 0 0))
              (to_fp (Point 0 (2 ^ 600) 0)) FPlane_new) = NaN \<and>
   \<not> isPointInside_fp
        (setFromPoints_fp (to_fp (Point 0 0 0)) (to_fp (Point (2 ^ 600) 0 0))
           (to_fp (Point 0 (2 ^ 600) 0)) FPlane_new)
        (to_fp (Point 0 0 0))"
proof -
  have nc: "\<not> collinear (Point 0 0 0) (Point (2 ^ 600) 0 0) (Point 0 (2 ^ 600) 0)"
    by (simp add: collinear_def cross_def pt_minus_def)
  have f: "finite_double (2 ^ 600)" "finite_double 0"
    by (simp_all add: finite_double_def DBL_LOWEST_def DBL_MAX_def)
  have fp: "finite_point (Point (2 ^ 600) 0 0)" "finite_point (Point 0 (2 ^ 600) 0)"
    using f by (simp_all add: finite_point_def)
  have o: "fp_overflow 0 = Fin 0" "fp_overflow (2 ^ 600) = Fin (2 ^ 600)"
    by (simp_all add: fp_overflow_def DBL_LOWEST_def DBL_MAX_def)
  have c: "fp_cross (fp_pt_minus (to_fp (Point (2 ^ 600) 0 0)) (to_fp (Point 0 0 0)))
             (fp_pt_minus (to_fp (Point 0 (2 ^ 600) 0)) (to_fp (Point 0 0 0)))
           = FPoint (Fin 0) (Fin 0) PInf"
    by (simp add: fp_cross_def fp_pt_minus_def to_fp_def fp_sub_def fp_overflow_def
        DBL_LOWEST_def DBL_MAX_def)
  have n: "fp_normalized (FPoint (Fin 0) (Fin 0) PInf) = FPoint (Fin 0) (Fin 0) NaN"
    by (simp add: fp_normalized_def fp_squaredNorm_def fp_dot_def fp_pt_div_def o)
  have d: "fp_dot (FPoint (Fin 0) (Fin 0) NaN) (to_fp (Point 0 0 0)) = NaN"
    by (simp add: fp_dot_def to_fp_def o)
  have pl: "setFromPoints_fp (to_fp (Point 0 0 0)) (to_fp (Point (2 ^ 600) 0 0))
              (to_fp (Point 0 (2 ^ 600) 0)) FPlane_new
            = \<lparr>fnormal = FPoint (Fin 0) (Fin 0) NaN, fdistance = NaN\<rparr>"
    unfolding setFromPoints_fp_def Let_def c n d FPlane_new_def by simp
  have "\<not> isPointInside_fp \<lparr>fnormal = FPoint (Fin 0) (Fin 0) NaN, fdistance = NaN\<rparr>
            (to_fp (Point 0 0 0))"
    by (simp add: isPointInside_fp_def fp_ge_NaN)
  then have "fnormal \<lparr>fnormal = FPoint (Fin 0) (Fin 0) NaN, fdistance = NaN\<rparr>
               = FPoint (Fin 0) (Fin 0) NaN \<and>
             fdistance \<lparr>fnormal = FPoint (Fin 0) (Fin 0) NaN, fdistance = NaN\<rparr> = NaN \<and>
             \<not> isPointInside_fp \<lparr>fnormal = FPoint (Fin 0) (Fin 0) NaN, fdistance = NaN\<rparr>
                  (to_fp (Point 0 0 0))"
    by simp
  with nc fp show ?thesis unfolding pl by (intro conjI) simp_all
qed


section \<open>The corners set by the intrinsics\<close>

text \<open>
  C3: \<open>setIntrinsicsFromFoV\<close> stores the eight corners the specification describes, four
  at the near depth and then four at the far depth, and marks the model initialized; a
  second call replaces the corners of the first.
\<close>

theorem setIntrinsicsFromFoV_corners:
  "untransformed_corners (setIntrinsicsFromFoV h v a b cm) = spec_corners h v a b \<and>
   length (untransformed_corners (setIntrinsicsFromFoV h v a b cm)) = 8 \<and>
   initialized (setIntrinsicsFromFoV h v a b cm) \<and>
   setIntrinsicsFromFoV h v a b (setIntrinsicsFromFoV h' v' a' b' cm) =
     setIntrinsicsFromFoV h v a b cm"
  by (simp add: setIntrinsicsFromFoV_def spec_corners_def spec_corner_def Let_def)


section \<open>Pose setters before the intrinsics\<close>

text \<open>
  C7: on a model whose intrinsics were never set, \<open>setCameraPose\<close> and \<open>setBodyPose\<close>
  return normally, change nothing but the stored pose, and so leave the bounding planes as
  they were (none, on a new model).
\<close>

theorem pose_setters_before_intrinsics:
  assumes "\<not> initialized cm"
  shows "(\<exists>cm'. setCameraPose P cm = Inr cm' \<and> cm' = cm\<lparr>T_G_C := P\<rparr> \<and>
            bounding_planes cm' = bounding_planes cm \<and> \<not> initialized cm') \<and>
         (\<exists>cm'. setBodyPose P cm = Inr cm' \<and>
            cm' = cm\<lparr>T_G_C := T_mul P (T_inverse (T_C_B cm))\<rparr> \<and>
            bounding_planes cm' = bounding_planes cm \<and> \<not> initialized cm')"
proof -
  have a: "setCameraPose Q cm = Inr (cm\<lparr>T_G_C := Q\<rparr>)" for Q
    using assms by (rule setCameraPose_uninit)
  have b: "setBodyPose P cm = Inr (cm\<lparr>T_G_C := T_mul P (T_inverse (T_C_B cm))\<rparr>)"
    unfolding setBodyPose_def by (rule a)
  have c: "bounding_planes (cm\<lparr>T_G_C := Q\<rparr>) = bounding_planes cm \<and>
           \<not> initialized (cm\<lparr>T_G_C := Q\<rparr>)" for Q
    using assms by simp
  from a[of P] c[of P] have 1: "\<exists>cm'. setCameraPose P cm = Inr cm' \<and> cm' = cm\<lparr>T_G_C := P\<rparr> \<and>
            bounding_planes cm' = bounding_planes cm \<and> \<not> initialized cm'"
    by simp
  from b c[of "T_mul P (T_inverse (T_C_B cm))"]
  have 2: "\<exists>cm'. setBodyPose P cm = Inr cm' \<and>
            cm' = cm\<lparr>T_G_C := T_mul P (T_inverse (T_C_B cm))\<rparr> \<and>
            bounding_planes cm' = bounding_planes cm \<and> \<not> initialized cm'"
    by simp
  from 1 2 show ?thesis by (rule conjI)
qed

theorem pose_setters_before_intrinsics_witness:
  "\<not> initialized CameraModel_new \<and> bounding_planes CameraModel_new = [] \<and>
   ((\<exists>cm'. setCameraPose T_identity CameraModel_new = Inr cm' \<and>
        cm' = CameraModel_new\<lparr>T_G_C := T_identity\<rparr> \<and>
        bounding_planes cm' = bounding_planes CameraModel_new \<and> \<not> initialized cm') \<and>
    (\<exists>cm'. setBodyPose T_identity CameraModel_new = Inr cm' \<and>
        cm' = CameraModel_new\<lparr>T_G_C := T_mul T_identity (T_inverse (T_C_B CameraModel_new))\<rparr> \<and>
        bounding_planes cm' = bounding_planes CameraModel_new \<and> \<not> initialized cm'))"
proof -
  have h: "\<not> initialized CameraModel_new" by (simp add: CameraModel_new_fields)
  have e: "bounding_planes CameraModel_new = []" by (simp add: CameraModel_new_fields)
  show ?thesis
    by (rule conjI[OF h conjI[OF e pose_setters_before_intrinsics[OF h, of T_identity]]])
qed

text \<open>
  C10: \<open>setCameraPose P\<close> stores \<open>P\<close> whenever it returns, and on a model that is not
  initialized it returns and leaves the corners, the planes and the bounding box unchanged.
\<close>

theorem setCameraPose_stores_pose:
  "(\<forall>cm'. setCameraPose P cm = Inr cm' \<longrightarrow> getCameraPose cm' = P) \<and>
   (\<not> initialized cm \<longrightarrow>
      (\<exists>cm'. setCameraPose P cm = Inr cm' \<and> getCameraPose cm' = P \<and>
         untransformed_corners cm' = untransformed_corners cm \<and>
         bounding_planes cm' = bounding_planes cm \<and>
         aabb_min cm' = aabb_min cm \<and> aabb_max cm' = aabb_max cm \<and>
         getAabb cm' = getAabb cm))"
proof (intro conjI allI impI)
  fix cm' assume "setCameraPose P cm = Inr cm'"
  then have "T_G_C cm' = T_G_C (cm\<lparr>T_G_C := P\<rparr>)"
    unfolding setCameraPose_def by (rule calculateBoundingPlanes_T_G_C)
  then show "getCameraPose cm' = P" by (simp add: getCameraPose_def)
next
  assume "\<not> initialized cm"
  then have "setCameraPose P cm = Inr (cm\<lparr>T_G_C := P\<rparr>)" by (rule setCameraPose_uninit)
  then show "\<exists>cm'. setCameraPose P cm = Inr cm' \<and> getCameraPose cm' = P \<and>
         untransformed_corners cm' = untransformed_corners cm \<and>
         bounding_planes cm' = bounding_planes cm \<and>
         aabb_min cm' = aabb_min cm \<and> aabb_max cm' = aabb_max cm \<and>
         getAabb cm' = getAabb cm"
    by (simp add: getCameraPose_def getAabb_def)
qed

theorem setCameraPose_stores_pose_witness:
  "\<not> initialized CameraModel_new \<and>
   (\<exists>cm'. setCameraPose \<lparr>rotation = mat_id, position = Point 1 2 3\<rparr> CameraModel_new = Inr cm' \<and>
      getCameraPose cm' = \<lparr>rotation = mat_id, position = Point 1 2 3\<rparr> \<and>
      untransformed_corners cm' = [] \<and> bounding_planes cm' = [] \<and>
      aabb_min cm' = aabb_min CameraModel_new \<and> aabb_max cm' = aabb_max CameraModel_new)"
proof -
  have h: "\<not> initialized CameraModel_new" by (simp add: CameraModel_new_fields)
  have e: "untransformed_corners CameraModel_new = []" "bounding_planes CameraModel_new = []"
    by (simp_all add: CameraModel_new_fields)
  from setCameraPose_stores_pose[of "\<lparr>rotation = mat_id, position = Point 1 2 3\<rparr>" CameraModel_new] h
  obtain cm' where "setCameraPose \<lparr>rotation = mat_id, position = Point 1 2 3\<rparr> CameraModel_new = Inr cm'"
    "getCameraPose cm' = \<lparr>rotation = mat_id, position = Point 1 2 3\<rparr>"
    "untransformed_corners cm' = untransformed_corners CameraModel_new"
    "bounding_planes cm' = bounding_planes CameraModel_new"
    "aabb_min cm' = aabb_min CameraModel_new" "aabb_max cm' = aabb_max CameraModel_new"
    by blast
  with h e show ?thesis by (intro conjI exI[of _ cm']) simp_all
qed


section \<open>Points in view\<close>

text \<open>
  C2: after a pose is set on an initialized model there are six bounding planes, and a
  point is in view exactly when it is inside each of the six. The query is a function of
  the model and the point; it returns no new model.
\<close>

theorem isPointInView_iff_all_planes:
  assumes "cm_inv cm" and "initialized cm"
  shows "\<exists>cm'. setCameraPose P cm = Inr cm' \<and> length (bounding_planes cm') = 6 \<and>
           (\<forall>p. isPointInView cm' p \<longleftrightarrow> (\<forall>i<6. isPointInside (bounding_planes cm' ! i) p))"
proof -
  from setCameraPose_init[OF assms(2,1), of P] obtain cm' where
    ok: "setCameraPose P cm = Inr cm'" and
    pl: "bounding_planes cm' =
       set_bounding_planes (map (T_apply P) (untransformed_corners cm))
         (if bounding_planes cm = [] then replicate 6 Plane_new else bounding_planes cm)"
    by blast
  have len: "length (bounding_planes cm') = 6"
    using assms(1) by (auto simp add: pl cm_inv_def)
  have "isPointInView cm' p \<longleftrightarrow> (\<forall>i<6. isPointInside (bounding_planes cm' ! i) p)" for p
    using len by (auto simp add: isPointInView_def planes_all_inside_iff all_set_conv_all_nth)
  with ok len show ?thesis by blast
qed

theorem isPointInView_iff_all_planes_witness:
  "cm_inv (setIntrinsicsFromFoV 1 1 1 2 CameraModel_new) \<and>
   initialized (setIntrinsicsFromFoV 1 1 1 2 CameraModel_new) \<and>
   (\<exists>cm'. setCameraPose T_identity (setIntrinsicsFromFoV 1 1 1 2 CameraModel_new) = Inr cm' \<and>
      length (bounding_planes cm') = 6 \<and>
      (\<forall>p. isPointInView cm' p \<longleftrightarrow> (\<forall>i<6. isPointInside (bounding_planes cm' ! i) p)))"
proof -
  have h1: "cm_inv (setIntrinsicsFromFoV 1 1 1 2 CameraModel_new)"
    by (simp add: cm_inv_def setIntrinsicsFromFoV_fields CameraModel_new_fields)
  have h2: "initialized (setIntrinsicsFromFoV 1 1 1 2 CameraModel_new)"
    by (simp add: setIntrinsicsFromFoV_fields)
  from isPointInView_iff_all_planes[OF h1 h2, of T_identity] h1 h2 show ?thesis by blast
qed

text \<open>
  C9: a model without bounding planes reports every point in view: a new model, a model
  whose intrinsics are set but whose pose never was, and a model whose pose was set before
  its intrinsics.
\<close>

theorem isPointInView_no_planes:
  "(bounding_planes cm = [] \<longrightarrow> isPointInView cm p) \<and>
   isPointInView CameraModel_new p \<and>
   isPointInView (setIntrinsicsFromFoV h v a b CameraModel_new) p \<and>
   (\<not> initialized cm \<and> bounding_planes cm = [] \<longrightarrow>
      (\<exists>cm'. setCameraPose P cm = Inr cm' \<and> bounding_planes cm' = [] \<and> isPointInView cm' p))"
  by (simp add: isPointInView_def CameraModel_new_fields setIntrinsicsFromFoV_fields
      setCameraPose_uninit)

theorem isPointInView_no_planes_witness:
  "bounding_planes CameraModel_new = [] \<and> \<not> initialized CameraModel_new \<and>
   isPointInView CameraModel_new (Point 0 0 (-7)) \<and>
   (\<exists>cm'. setCameraPose T_identity CameraModel_new = Inr cm' \<and> bounding_planes cm' = [] \<and>
      isPointInView cm' (Point 0 0 (-7)))"
  using isPointInView_no_planes[of CameraModel_new "Point 0 0 (-7)" 0 0 0 0 T_identity]
  by (simp add: CameraModel_new_def)

section \<open>Composition and inversion of transformations\<close>

lemma calculateBoundingPlanes_T_C_B:
  "calculateBoundingPlanes cm = Inr cm' \<Longrightarrow> T_C_B cm' = T_C_B cm"
  unfolding calculateBoundingPlanes_def Let_def
  by (auto split: if_splits)

lemma mat_mul_assoc: "mat_mul (mat_mul A B) C = mat_mul A (mat_mul B C)"
  by (simp add: mat_mul_def dot_def col1_def col2_def col3_def algebra_simps)

lemma mat_mul_id_right: "mat_mul A mat_id = A"
  by (simp add: mat_mul_def mat_id_def dot_def col1_def col2_def col3_def)

lemma mat_vec_mul: "mat_vec (mat_mul A B) p = mat_vec A (mat_vec B p)"
  by (simp add: mat_mul_def mat_vec_def dot_def col1_def col2_def col3_def algebra_simps)

lemma mat_vec_neg: "mat_vec A (pt_neg p) = pt_neg (mat_vec A p)"
  by (simp add: mat_vec_def pt_neg_def dot_def)

lemma pt_plus_neg_cancel: "pt_plus a (pt_plus (pt_neg a) b) = b"
  by (simp add: pt_plus_def pt_neg_def)

lemma T_mul_inverse_cancel:
  assumes "is_rigid T"
  shows "T_mul (T_mul B (T_inverse T)) T = B"
proof -
  have r: "mat_mul (mat_mul (rotation B) (mat_transpose (rotation T))) (rotation T) = rotation B"
    using assms by (simp add: mat_mul_assoc is_rigid_def mat_mul_id_right)
  have p: "pt_plus (mat_vec (mat_mul (rotation B) (mat_transpose (rotation T))) (position T))
             (pt_plus (mat_vec (rotation B)
                 (pt_neg (mat_vec (mat_transpose (rotation T)) (position T)))) (position B))
           = position B"
    by (simp add: mat_vec_mul mat_vec_neg pt_plus_neg_cancel)
  show ?thesis
    by (simp add: T_mul_def T_inverse_def r p)
qed


section \<open>The bounding box\<close>

lemma coeff_set_coeff_same: "coeff (set_coeff p i v) i = v"
  by (simp add: coeff_def set_coeff_def)

lemma coeff_set_coeff_other:
  "i < 3 \<Longrightarrow> j < 3 \<Longrightarrow> i \<noteq> j \<Longrightarrow> coeff (set_coeff p j v) i = coeff p i"
  by (auto simp add: coeff_def set_coeff_def)

lemma set_coeff_twice: "set_coeff (set_coeff p i v) i w = set_coeff p i w"
  by (simp add: set_coeff_def)

lemma coeff_setConstant: "coeff (setConstant v) i = v"
  by (simp add: coeff_def setConstant_def)

lemma aabb_corners_eq:
  "aabb_corners i cs (mn, mx) =
     (set_coeff mn i (foldl (\<lambda>m c. std_min m (coeff c i)) (coeff mn i) cs),
      set_coeff mx i (foldl (\<lambda>m c. std_max m (coeff c i)) (coeff mx i) cs))"
proof (induction cs arbitrary: mn mx)
  case Nil
  show ?case by (cases mn; cases mx) (simp add: set_coeff_def coeff_def)
next
  case (Cons c cs)
  show ?case
    by (simp add: Cons.IH coeff_set_coeff_same set_coeff_twice)
qed

lemma calculate_aabb_coeff:
  assumes "i < 3"
  shows "coeff (fst (calculate_aabb tc)) i = foldl (\<lambda>m c. std_min m (coeff c i)) DBL_MAX tc"
    and "coeff (snd (calculate_aabb tc)) i = foldl (\<lambda>m c. std_max m (coeff c i)) DBL_LOWEST tc"
proof -
  from assms have "i = 0 \<or> i = 1 \<or> i = 2" by auto
  then show "coeff (fst (calculate_aabb tc)) i = foldl (\<lambda>m c. std_min m (coeff c i)) DBL_MAX tc"
    by (auto simp add: calculate_aabb_def aabb_corners_eq coeff_set_coeff_same
        coeff_set_coeff_other coeff_setConstant)
  from \<open>i = 0 \<or> i = 1 \<or> i = 2\<close>
  show "coeff (snd (calculate_aabb tc)) i = foldl (\<lambda>m c. std_max m (coeff c i)) DBL_LOWEST tc"
    by (auto simp add: calculate_aabb_def aabb_corners_eq coeff_set_coeff_same
        coeff_set_coeff_other coeff_setConstant)
qed

lemma foldl_std_min_le:
  "foldl (\<lambda>m c. std_min m (f c)) a cs \<le> a \<and>
   (\<forall>c \<in> set cs. foldl (\<lambda>m c. std_min m (f c)) a cs \<le> f c)"
proof (induction cs arbitrary: a)
  case Nil
  show ?case by simp
next
  case (Cons c cs)
  have "std_min a (f c) \<le> a" "std_min a (f c) \<le> f c" by (simp_all add: std_min_def)
  with Cons.IH[of "std_min a (f c)"] show ?case by fastforce
qed

lemma foldl_std_min_attained:
  "foldl (\<lambda>m c. std_min m (f c)) a cs = a \<or>
   (\<exists>c \<in> set cs. foldl (\<lambda>m c. std_min m (f c)) a cs = f c)"
proof (induction cs arbitrary: a)
  case Nil
  show ?case by simp
next
  case (Cons c cs)
  have "std_min a (f c) = a \<or> std_min a (f c) = f c" by (simp add: std_min_def)
  with Cons.IH[of "std_min a (f c)"] show ?case by auto
qed

lemma foldl_std_max_ge:
  "a \<le> foldl (\<lambda>m c. std_max m (f c)) a cs \<and>
   (\<forall>c \<in> set cs. f c \<le> foldl (\<lambda>m c. std_max m (f c)) a cs)"
proof (induction cs arbitrary: a)
  case Nil
  show ?case by simp
next
  case (Cons c cs)
  have "a \<le> std_max a (f c)" "f c \<le> std_max a (f c)" by (simp_all add: std_max_def)
  with Cons.IH[of "std_max a (f c)"] show ?case by fastforce
qed

lemma foldl_std_max_attained:
  "foldl (\<lambda>m c. std_max m (f c)) a cs = a \<or>
   (\<exists>c \<in> set cs. foldl (\<lambda>m c. std_max m (f c)) a cs = f c)"
proof (induction cs arbitrary: a)
  case Nil
  show ?case by simp
next
  case (Cons c cs)
  have "std_max a (f c) = a \<or> std_max a (f c) = f c" by (simp add: std_max_def)
  with Cons.IH[of "std_max a (f c)"] show ?case by auto
qed

lemma foldl_std_min_in:
  assumes "cs \<noteq> []" and "\<forall>c \<in> set cs. f c \<le> a"
  shows "\<exists>c \<in> set cs. foldl (\<lambda>m c. std_min m (f c)) a cs = f c"
proof (cases "foldl (\<lambda>m c. std_min m (f c)) a cs = a")
  case True
  from assms(1) obtain c where c: "c \<in> set cs" by (cases cs) auto
  with foldl_std_min_le[of f a cs] have "foldl (\<lambda>m c. std_min m (f c)) a cs \<le> f c" by blast
  with True assms(2) c have "foldl (\<lambda>m c. std_min m (f c)) a cs = f c" by fastforce
  with c show ?thesis by blast
next
  case False
  with foldl_std_min_attained[of f a cs] show ?thesis by blast
qed

lemma foldl_std_max_in:
  assumes "cs \<noteq> []" and "\<forall>c \<in> set cs. a \<le> f c"
  shows "\<exists>c \<in> set cs. foldl (\<lambda>m c. std_max m (f c)) a cs = f c"
proof (cases "foldl (\<lambda>m c. std_max m (f c)) a cs = a")
  case True
  from assms(1) obtain c where c: "c \<in> set cs" by (cases cs) auto
  with foldl_std_max_ge[of a f cs] have "f c \<le> foldl (\<lambda>m c. std_max m (f c)) a cs" by blast
  with True assms(2) c have "foldl (\<lambda>m c. std_max m (f c)) a cs = f c" by fastforce
  with c show ?thesis by blast
next
  case False
  with foldl_std_max_attained[of f a cs] show ?thesis by blast
qed

lemma finite_point_coeff: "finite_point c \<Longrightarrow> DBL_LOWEST \<le> coeff c i \<and> coeff c i \<le> DBL_MAX"
  by (simp add: finite_point_def finite_double_def coeff_def)


section \<open>The frustum of a 90 degree camera\<close>

lemma corners_fov_90:
  "untransformed_corners (setIntrinsicsFromFoV (pi / 2) (pi / 2) 1 10 cm) =
     [Point 1 1 1, Point 1 1 (- 1), Point 1 (- 1) (- 1), Point 1 (- 1) 1,
      Point 10 10 10, Point 10 10 (- 10), Point 10 (- 10) (- 10), Point 10 (- 10) 10]"
  by (simp add: setIntrinsicsFromFoV_def Let_def tan_45)

lemma T_apply_identity: "T_apply T_identity p = p"
  by (cases p) (simp add: T_apply_def T_identity_def mat_vec_def mat_id_def dot_def pt_plus_def)

lemma map_T_apply_identity: "map (T_apply T_identity) ps = ps"
  by (induction ps) (simp_all add: T_apply_identity)

lemma setFromPoints_any_plane: "setFromPoints p1 p2 p3 pl = setFromPoints p1 p2 p3 Plane_new"
  by (cases pl) (simp add: setFromPoints_def Let_def Plane_new_def)

lemma set_bounding_planes_six:
  assumes "length pls = 6"
  shows "set_bounding_planes tc pls =
     [setFromPoints (tc ! 0) (tc ! 2) (tc ! 1) Plane_new,
      setFromPoints (tc ! 4) (tc ! 5) (tc ! 6) Plane_new,
      setFromPoints (tc ! 3) (tc ! 6) (tc ! 2) Plane_new,
      setFromPoints (tc ! 0) (tc ! 5) (tc ! 4) Plane_new,
      setFromPoints (tc ! 3) (tc ! 4) (tc ! 7) Plane_new,
      setFromPoints (tc ! 2) (tc ! 6) (tc ! 5) Plane_new]"
proof -
  from assms obtain a b c d e f where pls: "pls = [a, b, c, d, e, f]"
    by (auto simp add: eval_nat_numeral length_Suc_conv)
  show ?thesis
    unfolding pls set_bounding_planes_def
    by (simp add: setFromPoints_any_plane[of _ _ _ a] setFromPoints_any_plane[of _ _ _ b]
        setFromPoints_any_plane[of _ _ _ c] setFromPoints_any_plane[of _ _ _ d]
        setFromPoints_any_plane[of _ _ _ e] setFromPoints_any_plane[of _ _ _ f])
qed

lemma dot_pt_div: "dot p (pt_div c s) = dot p c / s" "dot (pt_div c s) p = dot c p / s"
  by (simp_all add: dot_def pt_div_def add_divide_distrib)

lemma isPointInside_setFromPoints:
  assumes "0 < squaredNorm (cross (pt_minus p2 p1) (pt_minus p3 p1))"
  shows "isPointInside (setFromPoints p1 p2 p3 pl) p \<longleftrightarrow>
           dot (cross (pt_minus p2 p1) (pt_minus p3 p1)) p1
             \<le> dot p (cross (pt_minus p2 p1) (pt_minus p3 p1))"
proof -
  let ?c = "cross (pt_minus p2 p1) (pt_minus p3 p1)"
  let ?s = "sqrt (squaredNorm ?c)"
  have s: "0 < ?s" using assms by simp
  have n: "normal (setFromPoints p1 p2 p3 pl) = pt_div ?c ?s"
    and d: "distance (setFromPoints p1 p2 p3 pl) = dot ?c p1 / ?s"
    using assms by (simp_all add: setFromPoints_def normalized_def Let_def dot_pt_div)
  have "isPointInside (setFromPoints p1 p2 p3 pl) p \<longleftrightarrow> dot ?c p1 / ?s \<le> dot p ?c / ?s"
    by (simp add: isPointInside_def n d dot_pt_div)
  also have "\<dots> \<longleftrightarrow> dot ?c p1 \<le> dot p ?c"
    using s by (simp add: divide_le_cancel)
  finally show ?thesis .
qed

lemma frustum_fov_90_planes:
  "planes_all_inside
     (set_bounding_planes
        [Point 1 1 1, Point 1 1 (- 1), Point 1 (- 1) (- 1), Point 1 (- 1) 1,
         Point 10 10 10, Point 10 10 (- 10), Point 10 (- 10) (- 10), Point 10 (- 10) 10]
        (replicate 6 Plane_new)) p
   \<longleftrightarrow> 1 \<le> px p \<and> px p \<le> 10 \<and> - px p \<le> py p \<and> py p \<le> px p \<and>
        pz p \<le> px p \<and> - px p \<le> pz p"
proof -
  have 1: "isPointInside (setFromPoints (Point 1 1 1) (Point 1 (- 1) (- 1)) (Point 1 1 (- 1)) Plane_new) p
             \<longleftrightarrow> 1 \<le> px p"
    by (subst isPointInside_setFromPoints)
       (auto simp add: squaredNorm_def dot_def cross_def pt_minus_def)
  have 2: "isPointInside (setFromPoints (Point 10 10 10) (Point 10 10 (- 10)) (Point 10 (- 10) (- 10)) Plane_new) p
             \<longleftrightarrow> px p \<le> 10"
    by (subst isPointInside_setFromPoints)
       (auto simp add: squaredNorm_def dot_def cross_def pt_minus_def)
  have 3: "isPointInside (setFromPoints (Point 1 (- 1) 1) (Point 10 (- 10) (- 10)) (Point 1 (- 1) (- 1)) Plane_new) p
             \<longleftrightarrow> - px p \<le> py p"
    by (subst isPointInside_setFromPoints)
       (auto simp add: squaredNorm_def dot_def cross_def pt_minus_def)
  have 4: "isPointInside (setFromPoints (Point 1 1 1) (Point 10 10 (- 10)) (Point 10 10 10) Plane_new) p
             \<longleftrightarrow> py p \<le> px p"
    by (subst isPointInside_setFromPoints)
       (auto simp add: squaredNorm_def dot_def cross_def pt_minus_def)
  have 5: "isPointInside (setFromPoints (Point 1 (- 1) 1) (Point 10 10 10) (Point 10 (- 10) 10) Plane_new) p
             \<longleftrightarrow> pz p \<le> px p"
    by (subst isPointInside_setFromPoints)
       (auto simp add: squaredNorm_def dot_def cross_def pt_minus_def)
  have 6: "isPointInside (setFromPoints (Point 1 (- 1) (- 1)) (Point 10 (- 10) (- 10)) (Point 10 10 (- 10)) Plane_new) p
             \<longleftrightarrow> - px p \<le> pz p"
    by (subst isPointInside_setFromPoints)
       (auto simp add: squaredNorm_def dot_def cross_def pt_minus_def)
  show ?thesis
    by (simp add: set_bounding_planes_six 1 2 3 4 5 6)
qed


lemma finite_double_small: "\<bar>x\<bar> \<le> 2 ^ 10 \<Longrightarrow> finite_double x"
proof -
  assume a: "\<bar>x\<bar> \<le> 2 ^ 10"
  have "(2::real) ^ 10 \<le> 2 ^ 1024 - 2 ^ 971" by simp
  with a show ?thesis by (simp add: finite_double_def DBL_LOWEST_def DBL_MAX_def abs_le_iff)
qed

lemma fov_90_corners_finite:
  "list_all finite_point
     (map (T_apply T_identity)
        (untransformed_corners (setIntrinsicsFromFoV (pi / 2) (pi / 2) 1 10 CameraModel_new)))"
  unfolding map_T_apply_identity corners_fov_90
  by (simp add: finite_point_def finite_double_small)

text \<open>
  C1: with both fields of view \<open>pi / 2\<close>, depths 1 and 10 and the identity pose, the
  point (5, 0, 0) is in view, the point (0.5, 0, 0) before the near plane is not, and the
  point (5, 100, 0) outside the side planes is not.
\<close>

theorem frustum_fov_90_example:
  assumes "bounding_planes cm = [] \<or> length (bounding_planes cm) = 6"
  shows "\<exists>cm'. setCameraPose T_identity (setIntrinsicsFromFoV (pi / 2) (pi / 2) 1 10 cm) = Inr cm' \<and>
           isPointInView cm' (Point 5 0 0) \<and>
           \<not> isPointInView cm' (Point (1 / 2) 0 0) \<and>
           \<not> isPointInView cm' (Point 5 100 0)"
proof -
  let ?c = "setIntrinsicsFromFoV (pi / 2) (pi / 2) 1 10 cm"
  let ?tc = "[Point 1 1 1, Point 1 1 (- 1), Point 1 (- 1) (- 1), Point 1 (- 1) 1,
      Point 10 10 10, Point 10 10 (- 10), Point 10 (- 10) (- 10), Point 10 (- 10) 10]"
  have inv: "cm_inv ?c" using assms by (simp add: cm_inv_def setIntrinsicsFromFoV_fields)
  have ini: "initialized ?c" by (simp add: setIntrinsicsFromFoV_fields)
  from setCameraPose_init[OF ini inv, of T_identity] obtain cm' where
    ok: "setCameraPose T_identity ?c = Inr cm'" and
    pl: "bounding_planes cm' =
       set_bounding_planes (map (T_apply T_identity) (untransformed_corners ?c))
         (if bounding_planes ?c = [] then replicate 6 Plane_new else bounding_planes ?c)"
    by blast
  have len: "length (if bounding_planes ?c = [] then replicate 6 Plane_new else bounding_planes ?c) = 6"
    using assms by (auto simp add: setIntrinsicsFromFoV_fields)
  have "bounding_planes cm' = set_bounding_planes ?tc (replicate 6 Plane_new)"
    unfolding pl map_T_apply_identity corners_fov_90
    by (simp only: set_bounding_planes_six[OF len] set_bounding_planes_six[of "replicate 6 Plane_new"]
        length_replicate)
  then have v: "isPointInView cm' p \<longleftrightarrow>
      1 \<le> px p \<and> px p \<le> 10 \<and> - px p \<le> py p \<and> py p \<le> px p \<and> pz p \<le> px p \<and> - px p \<le> pz p" for p
    by (simp only: isPointInView_def frustum_fov_90_planes)
  have "isPointInView cm' (Point 5 0 0)" "\<not> isPointInView cm' (Point (1 / 2) 0 0)"
    "\<not> isPointInView cm' (Point 5 100 0)"
    by (simp_all add: v)
  with ok show ?thesis by blast
qed

theorem frustum_fov_90_example_witness:
  "bounding_planes CameraModel_new = [] \<and>
   (\<exists>cm'. setCameraPose T_identity (setIntrinsicsFromFoV (pi / 2) (pi / 2) 1 10 CameraModel_new) = Inr cm' \<and>
           isPointInView cm' (Point 5 0 0) \<and>
           \<not> isPointInView cm' (Point (1 / 2) 0 0) \<and>
           \<not> isPointInView cm' (Point 5 100 0))"
proof -
  have e: "bounding_planes CameraModel_new = []" by (simp add: CameraModel_new_fields)
  then have h: "bounding_planes CameraModel_new = [] \<or> length (bounding_planes CameraModel_new) = 6"
    by (rule disjI1)
  show ?thesis by (rule conjI[OF e frustum_fov_90_example[OF h]])
qed


section \<open>The bounding box and the range of the finite doubles\<close>

lemma rigid_entries:
  assumes "is_rigid T"
    and "rotation T = Mat3 (Point a b c) (Point d e f) (Point g h i)"
  shows "\<bar>a\<bar> \<le> 1" "\<bar>b\<bar> \<le> 1" "\<bar>c\<bar> \<le> 1" "\<bar>d\<bar> \<le> 1" "\<bar>e\<bar> \<le> 1" "\<bar>f\<bar> \<le> 1"
    "\<bar>g\<bar> \<le> 1" "\<bar>h\<bar> \<le> 1" "\<bar>i\<bar> \<le> 1"
proof -
  from assms have 1: "a * a + d * d + g * g = 1" and 2: "b * b + e * e + h * h = 1"
    and 3: "c * c + f * f + i * i = 1"
    by (simp_all add: is_rigid_def mat_mul_def mat_transpose_def mat_id_def dot_def
        col1_def col2_def col3_def)
  have sq: "\<bar>x\<bar> \<le> 1" if "x * x + y * y + z * z = 1" for x y z :: real
  proof -
    have "0 \<le> y * y" "0 \<le> z * z" by simp_all
    with that have "x * x \<le> 1" by linarith
    then have "x\<^sup>2 \<le> 1" by (simp add: power2_eq_square)
    then show ?thesis by (simp add: abs_square_le_1)
  qed
  show "\<bar>a\<bar> \<le> 1" using 1 by (rule sq)
  show "\<bar>b\<bar> \<le> 1" using 2 by (rule sq)
  show "\<bar>c\<bar> \<le> 1" using 3 by (rule sq)
  have "d * d + a * a + g * g = 1" using 1 by simp
  then show "\<bar>d\<bar> \<le> 1" by (rule sq)
  have "e * e + b * b + h * h = 1" using 2 by simp
  then show "\<bar>e\<bar> \<le> 1" by (rule sq)
  have "f * f + c * c + i * i = 1" using 3 by simp
  then show "\<bar>f\<bar> \<le> 1" by (rule sq)
  have "g * g + a * a + d * d = 1" using 1 by simp
  then show "\<bar>g\<bar> \<le> 1" by (rule sq)
  have "h * h + b * b + e * e = 1" using 2 by simp
  then show "\<bar>h\<bar> \<le> 1" by (rule sq)
  have "i * i + c * c + f * f = 1" using 3 by simp
  then show "\<bar>i\<bar> \<le> 1" by (rule sq)
qed

lemma row_bound:
  fixes a b c x y z t :: real
  assumes "\<bar>a\<bar> \<le> 1" "\<bar>b\<bar> \<le> 1" "\<bar>c\<bar> \<le> 1" "\<bar>x\<bar> \<le> C" "\<bar>y\<bar> \<le> C" "\<bar>z\<bar> \<le> C" "\<bar>t\<bar> \<le> B"
  shows "\<bar>a * x + b * y + c * z + t\<bar> \<le> 3 * C + B"
proof -
  have C: "0 \<le> C" using assms(4) by linarith
  have m: "\<bar>p * q\<bar> \<le> C" if "\<bar>p\<bar> \<le> 1" "\<bar>q\<bar> \<le> C" for p q :: real
  proof -
    have "\<bar>p * q\<bar> = \<bar>p\<bar> * \<bar>q\<bar>" by (rule abs_mult)
    also have "\<dots> \<le> 1 * C" using that C by (intro mult_mono) simp_all
    finally show ?thesis by simp
  qed
  have "\<bar>a * x\<bar> \<le> C" "\<bar>b * y\<bar> \<le> C" "\<bar>c * z\<bar> \<le> C"
    using assms by (auto intro: m)
  with assms(7) show ?thesis by linarith
qed

lemma T_apply_coords_within:
  assumes "is_rigid T" "coords_within C p" "coords_within B (position T)"
  shows "coords_within (3 * C + B) (T_apply T p)"
proof -
  obtain a b c d e f g h i where R: "rotation T = Mat3 (Point a b c) (Point d e f) (Point g h i)"
    by (metis Mat3.exhaust Point.exhaust)
  note r = rigid_entries[OF assms(1) R]
  from assms(2,3) show ?thesis
    unfolding coords_within_def T_apply_def mat_vec_def pt_plus_def dot_def R
    by (simp only: Point.sel Mat3.sel) (intro conjI row_bound r; simp)
qed

lemma transformed_corners_finite:
  assumes "is_rigid P" "list_all (coords_within C) cs" "coords_within B (position P)"
    "3 * C + B \<le> DBL_MAX"
  shows "list_all finite_point (map (T_apply P) cs)"
  using assms
  by (auto simp add: list_all_iff intro!: coords_within_finite_point[of "3 * C + B"]
      T_apply_coords_within)

lemma foldl_std_min_all_gt:
  "\<forall>c \<in> set cs. a < f c \<Longrightarrow> foldl (\<lambda>m c. std_min m (f c)) a cs = a"
  by (induction cs) (simp_all add: std_min_def)

lemma T_apply_translation:
  "T_apply \<lparr>rotation = mat_id, position = Point tx ty tz\<rparr> (Point x y z) =
     Point (x + tx) (y + ty) (z + tz)"
  by (simp add: T_apply_def mat_vec_def mat_id_def dot_def pt_plus_def)

lemma is_rigid_translation: "is_rigid \<lparr>rotation = mat_id, position = t\<rparr>"
  by (simp add: is_rigid_def mat_mul_def mat_transpose_def mat_id_def dot_def
      col1_def col2_def col3_def)

lemma corners_fov_90_any:
  "untransformed_corners (setIntrinsicsFromFoV (pi / 2) (pi / 2) a b cm) =
     [Point a a a, Point a a (- a), Point a (- a) (- a), Point a (- a) a,
      Point b b b, Point b b (- b), Point b (- b) (- b), Point b (- b) b]"
  by (simp add: setIntrinsicsFromFoV_def Let_def tan_45)

lemma overflow_bounds:
  "DBL_MAX < 2 ^ 1023 + 2 ^ 1023" "DBL_MAX < 3 * 2 ^ 1022 + 2 ^ 1023"
  by (simp_all add: DBL_MAX_def)

text \<open>
  C5: after \<open>setCameraPose\<close> on an initialized model whose eight transformed corners have
  all their coordinates in the range of the finite doubles, on each of the three axes
  every transformed corner lies between \<open>aabb_min\<close> and \<open>aabb_max\<close>, and each of the two
  bounds is the coordinate of one of the corners. By \<open>transformed_corners_finite\<close> the
  condition holds for a rigid pose when three times the largest corner coordinate plus
  the largest translation coordinate stays within the largest finite double.
\<close>

theorem aabb_min_max_of_corners:
  assumes "cm_inv cm" and "initialized cm"
    and "list_all finite_point (map (T_apply P) (untransformed_corners cm))"
  shows "\<exists>cm'. setCameraPose P cm = Inr cm' \<and>
           transformed_corners cm' = map (T_apply P) (untransformed_corners cm) \<and>
           length (transformed_corners cm') = 8 \<and>
           (\<forall>i<3.
              (\<forall>c \<in> set (transformed_corners cm').
                 coeff (aabb_min cm') i \<le> coeff c i \<and> coeff c i \<le> coeff (aabb_max cm') i) \<and>
              (\<exists>c \<in> set (transformed_corners cm'). coeff (aabb_min cm') i = coeff c i) \<and>
              (\<exists>c \<in> set (transformed_corners cm'). coeff (aabb_max cm') i = coeff c i))"
proof -
  let ?tc = "map (T_apply P) (untransformed_corners cm)"
  from setCameraPose_init[OF assms(2,1), of P] obtain cm' where
    ok: "setCameraPose P cm = Inr cm'" and g: "T_G_C cm' = P"
    and u: "untransformed_corners cm' = untransformed_corners cm"
    and mn: "aabb_min cm' = fst (calculate_aabb ?tc)"
    and mx: "aabb_max cm' = snd (calculate_aabb ?tc)"
    by blast
  have tc: "transformed_corners cm' = ?tc" by (simp add: transformed_corners_def g u)
  have len: "length ?tc = 8" using assms(1,2) by (simp add: cm_inv_def)
  then have ne: "?tc \<noteq> []" by auto
  have ax: "(\<forall>c \<in> set ?tc.
                 coeff (aabb_min cm') i \<le> coeff c i \<and> coeff c i \<le> coeff (aabb_max cm') i) \<and>
              (\<exists>c \<in> set ?tc. coeff (aabb_min cm') i = coeff c i) \<and>
              (\<exists>c \<in> set ?tc. coeff (aabb_max cm') i = coeff c i)" if i: "i < 3" for i
  proof -
    let ?f = "\<lambda>c. coeff c i"
    have lo: "\<forall>c \<in> set ?tc. ?f c \<le> DBL_MAX" and hi: "\<forall>c \<in> set ?tc. DBL_LOWEST \<le> ?f c"
      using assms(3) finite_point_coeff unfolding list_all_iff by blast+
    have a: "coeff (aabb_min cm') i = foldl (\<lambda>m c. std_min m (?f c)) DBL_MAX ?tc"
      and b: "coeff (aabb_max cm') i = foldl (\<lambda>m c. std_max m (?f c)) DBL_LOWEST ?tc"
      unfolding mn mx using i by (rule calculate_aabb_coeff)+
    from foldl_std_min_le[of ?f DBL_MAX ?tc] foldl_std_max_ge[of DBL_LOWEST ?f ?tc]
    have 1: "\<forall>c \<in> set ?tc.
                 coeff (aabb_min cm') i \<le> coeff c i \<and> coeff c i \<le> coeff (aabb_max cm') i"
      unfolding a b by blast
    from foldl_std_min_in[OF ne lo] have 2: "\<exists>c \<in> set ?tc. coeff (aabb_min cm') i = coeff c i"
      unfolding a .
    from foldl_std_max_in[OF ne hi] have 3: "\<exists>c \<in> set ?tc. coeff (aabb_max cm') i = coeff c i"
      unfolding b .
    from 1 2 3 show ?thesis by (intro conjI)
  qed
  have "setCameraPose P cm = Inr cm' \<and>
           transformed_corners cm' = map (T_apply P) (untransformed_corners cm) \<and>
           length (transformed_corners cm') = 8 \<and>
           (\<forall>i<3.
              (\<forall>c \<in> set (transformed_corners cm').
                 coeff (aabb_min cm') i \<le> coeff c i \<and> coeff c i \<le> coeff (aabb_max cm') i) \<and>
              (\<exists>c \<in> set (transformed_corners cm'). coeff (aabb_min cm') i = coeff c i) \<and>
              (\<exists>c \<in> set (transformed_corners cm'). coeff (aabb_max cm') i = coeff c i))"
    unfolding tc using ok len ax by blast
  then show ?thesis by (rule exI)
qed

theorem aabb_min_max_of_corners_witness:
  "cm_inv (setIntrinsicsFromFoV (pi / 2) (pi / 2) 1 10 CameraModel_new) \<and>
   initialized (setIntrinsicsFromFoV (pi / 2) (pi / 2) 1 10 CameraModel_new) \<and>
   list_all finite_point
     (map (T_apply T_identity)
        (untransformed_corners (setIntrinsicsFromFoV (pi / 2) (pi / 2) 1 10 CameraModel_new))) \<and>
   (\<exists>cm'. setCameraPose T_identity
            (setIntrinsicsFromFoV (pi / 2) (pi / 2) 1 10 CameraModel_new) = Inr cm' \<and>
      transformed_corners cm' =
        map (T_apply T_identity)
          (untransformed_corners (setIntrinsicsFromFoV (pi / 2) (pi / 2) 1 10 CameraModel_new)) \<and>
      length (transformed_corners cm') = 8 \<and>
      (\<forall>i<3.
         (\<forall>c \<in> set (transformed_corners cm').
            coeff (aabb_min cm') i \<le> coeff c i \<and> coeff c i \<le> coeff (aabb_max cm') i) \<and>
         (\<exists>c \<in> set (transformed_corners cm'). coeff (aabb_min cm') i = coeff c i) \<and>
         (\<exists>c \<in> set (transformed_corners cm'). coeff (aabb_max cm') i = coeff c i)))"
proof -
  have h1: "cm_inv (setIntrinsicsFromFoV (pi / 2) (pi / 2) 1 10 CameraModel_new)"
    using cm_inv_new by (rule cm_inv_setIntrinsicsFromFoV)
  have h2: "initialized (setIntrinsicsFromFoV (pi / 2) (pi / 2) 1 10 CameraModel_new)"
    by (simp add: setIntrinsicsFromFoV_fields)
  note h3 = fov_90_corners_finite
  show ?thesis
    by (rule conjI[OF h1 conjI[OF h2 conjI[OF h3 aabb_min_max_of_corners[OF h1 h2 h3]]]])
qed

text \<open>
  Without that condition the statement of C5 fails. With depths \<open>2 ^ 1023\<close> and
  \<open>3 * 2 ^ 1022\<close>, both fields of view \<open>pi / 2\<close> and a pose that translates by \<open>2 ^ 1023\<close>
  along the first axis, every input is a finite double, but the first coordinate of every
  transformed corner is beyond the largest finite double. The loop for \<open>aabb_min\<close> starts
  from that largest double and never finds a smaller coordinate, so the bound it leaves
  is the coordinate of no corner.
\<close>

theorem aabb_min_max_of_corners_overflow:
  "cm_inv (setIntrinsicsFromFoV (pi / 2) (pi / 2) (2 ^ 1023) (3 * 2 ^ 1022) CameraModel_new) \<and>
   initialized (setIntrinsicsFromFoV (pi / 2) (pi / 2) (2 ^ 1023) (3 * 2 ^ 1022) CameraModel_new) \<and>
   is_rigid \<lparr>rotation = mat_id, position = Point (2 ^ 1023) 0 0\<rparr> \<and>
   \<not> isl (setCameraPose \<lparr>rotation = mat_id, position = Point (2 ^ 1023) 0 0\<rparr>
            (setIntrinsicsFromFoV (pi / 2) (pi / 2) (2 ^ 1023) (3 * 2 ^ 1022) CameraModel_new)) \<and>
   coeff (aabb_min (projr (setCameraPose \<lparr>rotation = mat_id, position = Point (2 ^ 1023) 0 0\<rparr>
            (setIntrinsicsFromFoV (pi / 2) (pi / 2) (2 ^ 1023) (3 * 2 ^ 1022) CameraModel_new)))) 0
     = DBL_MAX \<and>
   \<not> list_ex (\<lambda>c. coeff (aabb_min (projr (setCameraPose
            \<lparr>rotation = mat_id, position = Point (2 ^ 1023) 0 0\<rparr>
            (setIntrinsicsFromFoV (pi / 2) (pi / 2) (2 ^ 1023) (3 * 2 ^ 1022) CameraModel_new)))) 0
          = coeff c 0)
      (transformed_corners (projr (setCameraPose
            \<lparr>rotation = mat_id, position = Point (2 ^ 1023) 0 0\<rparr>
            (setIntrinsicsFromFoV (pi / 2) (pi / 2) (2 ^ 1023) (3 * 2 ^ 1022) CameraModel_new))))"
proof -
  let ?c = "setIntrinsicsFromFoV (pi / 2) (pi / 2) (2 ^ 1023) (3 * 2 ^ 1022) CameraModel_new"
  let ?P = "\<lparr>rotation = mat_id, position = Point (2 ^ 1023) 0 0\<rparr>"
  let ?tc = "map (T_apply ?P) (untransformed_corners ?c)"
  have inv: "cm_inv ?c" using cm_inv_new by (rule cm_inv_setIntrinsicsFromFoV)
  have ini: "initialized ?c" by (simp add: setIntrinsicsFromFoV_fields)
  have rig: "is_rigid ?P" by (rule is_rigid_translation)
  from setCameraPose_init[OF ini inv, of ?P] obtain cm' where
    ok: "setCameraPose ?P ?c = Inr cm'" and g: "T_G_C cm' = ?P"
    and u: "untransformed_corners cm' = untransformed_corners ?c"
    and mn: "aabb_min cm' = fst (calculate_aabb ?tc)"
    by blast
  have tc: "transformed_corners cm' = ?tc" by (simp add: transformed_corners_def g u)
  have big: "\<forall>c \<in> set ?tc. DBL_MAX < coeff c 0"
    unfolding corners_fov_90_any
    using overflow_bounds by (simp add: T_apply_translation coeff_def)
  have "coeff (fst (calculate_aabb ?tc)) 0 = foldl (\<lambda>m c. std_min m (coeff c 0)) DBL_MAX ?tc"
    by (rule calculate_aabb_coeff(1)) simp
  also have "\<dots> = DBL_MAX" using big by (rule foldl_std_min_all_gt)
  finally have m: "coeff (aabb_min cm') 0 = DBL_MAX" unfolding mn .
  have na: "\<not> list_ex (\<lambda>c. coeff (aabb_min cm') 0 = coeff c 0) (transformed_corners cm')"
    unfolding m tc list_ex_iff using big by fastforce
  have p: "projr (setCameraPose ?P ?c) = cm'" and l: "\<not> isl (setCameraPose ?P ?c)"
    unfolding ok by simp_all
  from m na show ?thesis unfolding p
    using inv ini rig l by (intro conjI)
qed


text \<open>
  C6: with extrinsics \<open>T\<close> set, \<open>setBodyPose B\<close> followed by \<open>getBodyPose\<close> gives \<open>B\<close>
  back: \<open>(B * inverse T) * T = B\<close>. Equality is exact in real arithmetic.
\<close>

theorem body_pose_round_trip:
  assumes "is_rigid T" and "cm_inv cm"
  shows "T_mul (T_mul B (T_inverse T)) T = B \<and>
         (\<exists>cm'. setBodyPose B (setExtrinsics T cm) = Inr cm' \<and> getBodyPose cm' = B)"
proof -
  let ?c = "setExtrinsics T cm"
  let ?Q = "T_mul B (T_inverse T)"
  have e: "T_C_B ?c = T" by (simp add: setExtrinsics_def)
  have "cm_inv ?c" using assms(2) by (rule cm_inv_setExtrinsics)
  then obtain cm' where ok: "setCameraPose ?Q ?c = Inr cm'"
    using setCameraPose_total by blast
  then have g: "T_G_C cm' = T_G_C (?c\<lparr>T_G_C := ?Q\<rparr>)"
    and b: "T_C_B cm' = T_C_B (?c\<lparr>T_G_C := ?Q\<rparr>)"
    unfolding setCameraPose_def
    by (rule calculateBoundingPlanes_T_G_C, rule calculateBoundingPlanes_T_C_B)
  have rt: "T_mul ?Q T = B" using assms(1) by (rule T_mul_inverse_cancel)
  have "getBodyPose cm' = T_mul ?Q T"
    using g b e by (simp add: getBodyPose_def)
  with rt have "getBodyPose cm' = B" by simp
  moreover have "setBodyPose B ?c = Inr cm'"
    using ok e by (simp add: setBodyPose_def)
  ultimately show ?thesis using rt by blast
qed

theorem body_pose_round_trip_witness:
  "is_rigid \<lparr>rotation = Mat3 (Point 0 (- 1) 0) (Point 1 0 0) (Point 0 0 1), position = Point 1 2 3\<rparr> \<and>
   cm_inv CameraModel_new \<and>
   (\<exists>cm'. setBodyPose \<lparr>rotation = mat_id, position = Point 4 5 6\<rparr>
            (setExtrinsics \<lparr>rotation = Mat3 (Point 0 (- 1) 0) (Point 1 0 0) (Point 0 0 1),
                             position = Point 1 2 3\<rparr> CameraModel_new) = Inr cm' \<and>
          getBodyPose cm' = \<lparr>rotation = mat_id, position = Point 4 5 6\<rparr>)"
proof -
  have h: "is_rigid \<lparr>rotation = Mat3 (Point 0 (- 1) 0) (Point 1 0 0) (Point 0 0 1), position = Point 1 2 3\<rparr>"
    by (simp add: is_rigid_def mat_mul_def mat_transpose_def mat_id_def dot_def
        col1_def col2_def col3_def)
  from body_pose_round_trip[OF h cm_inv_new, of "\<lparr>rotation = mat_id, position = Point 4 5 6\<rparr>"]
  have "\<exists>cm'. setBodyPose \<lparr>rotation = mat_id, position = Point 4 5 6\<rparr>
            (setExtrinsics \<lparr>rotation = Mat3 (Point 0 (- 1) 0) (Point 1 0 0) (Point 0 0 1),
                             position = Point 1 2 3\<rparr> CameraModel_new) = Inr cm' \<and>
          getBodyPose cm' = \<lparr>rotation = mat_id, position = Point 4 5 6\<rparr>"
    by (rule conjunct2)
  with h cm_inv_new show ?thesis by (intro conjI)
qed

end
